theory Spec2Isabelle
  imports Complex_Main
begin

section \<open>JavaScript values and strings\<close>

text \<open>
  The values the handlers of the API server (\<^verbatim>\<open>src/unnamed/part_000\<close>) and the dashboard
  widget (\<^verbatim>\<open>src/cag-pos-dashboard.js\<close>) receive from the database driver, from request bodies
  and from \<^verbatim>\<open>JSON.parse\<close>. Strings are lists of 8-bit characters (the code units 00..FF).
  Numbers held in such values are the integers; \<open>JObj\<close> lists the own enumerable properties
  of a plain object in the order \<^verbatim>\<open>Object.keys\<close> enumerates them.
\<close>

datatype jsval =
    JUndefined
  | JNull
  | JBool bool
  | JNum int
  | JStr string
  | JArr "jsval list"
  | JObj "(string \<times> jsval) list"

datatype jstype = TUndefined | TObject | TBoolean | TNumber | TString

fun js_typeof :: "jsval \<Rightarrow> jstype" where
  "js_typeof JUndefined = TUndefined"
| "js_typeof JNull = TObject"
| "js_typeof (JBool _) = TBoolean"
| "js_typeof (JNum _) = TNumber"
| "js_typeof (JStr _) = TString"
| "js_typeof (JArr _) = TObject"
| "js_typeof (JObj _) = TObject"

text \<open>\<^verbatim>\<open>ToBoolean\<close>: what \<^verbatim>\<open>!v\<close>, \<^verbatim>\<open>a || b\<close> and \<^verbatim>\<open>a && b\<close> test.\<close>

fun js_truthy :: "jsval \<Rightarrow> bool" where
  "js_truthy JUndefined = False"
| "js_truthy JNull = False"
| "js_truthy (JBool b) = b"
| "js_truthy (JNum n) = (n \<noteq> 0)"
| "js_truthy (JStr s) = (s \<noteq> [])"
| "js_truthy (JArr _) = True"
| "js_truthy (JObj _) = True"

definition js_or :: "jsval \<Rightarrow> jsval \<Rightarrow> jsval" where
  "js_or a b = (if js_truthy a then a else b)"

fun js_isArray :: "jsval \<Rightarrow> bool" where
  "js_isArray (JArr _) = True"
| "js_isArray _ = False"

fun decimal :: "nat \<Rightarrow> string" where
  "decimal n =
     (if n < 10 then [''0123456789'' ! n]
      else decimal (n div 10) @ [''0123456789'' ! (n mod 10)])"

declare decimal.simps [simp del]

definition int_to_string :: "int \<Rightarrow> string" where
  "int_to_string i = (if i < 0 then CHR ''-'' # decimal (nat (- i)) else decimal (nat i))"

fun join_comma :: "string list \<Rightarrow> string" where
  "join_comma [] = []"
| "join_comma [x] = x"
| "join_comma (x # y # ys) = x @ CHR '','' # join_comma (y # ys)"

text \<open>\<^verbatim>\<open>String(v)\<close>. An array prints its elements joined by commas, \<^verbatim>\<open>null\<close> and
  \<^verbatim>\<open>undefined\<close> elements as the empty string.\<close>

fun js_String :: "jsval \<Rightarrow> string" where
  "js_String JUndefined = ''undefined''"
| "js_String JNull = ''null''"
| "js_String (JBool b) = (if b then ''true'' else ''false'')"
| "js_String (JNum n) = int_to_string n"
| "js_String (JStr s) = s"
| "js_String (JArr xs) =
     join_comma (map (\<lambda>x. if x = JUndefined \<or> x = JNull then [] else js_String x) xs)"
| "js_String (JObj _) = ''[object Object]''"

definition is_digit :: "char \<Rightarrow> bool" where
  "is_digit c = (c \<in> set ''0123456789'')"

definition digit_val :: "char \<Rightarrow> nat" where
  "digit_val c = of_char c - 48"

definition digits_val :: "string \<Rightarrow> nat" where
  "digits_val s = foldl (\<lambda>n c. 10 * n + digit_val c) 0 s"

text \<open>The characters \<^verbatim>\<open>\s\<close> matches and \<^verbatim>\<open>trim\<close> strips, among the 8-bit characters:
  tab, line feed, vertical tab, form feed, carriage return, space, no-break space.\<close>

definition is_ws :: "char \<Rightarrow> bool" where
  "is_ws c = (of_char c \<in> set [9, 10, 11, 12, 13, 32, 160 :: nat])"

definition js_trim :: "string \<Rightarrow> string" where
  "js_trim s = rev (dropWhile is_ws (rev (dropWhile is_ws s)))"

definition startsWith :: "string \<Rightarrow> string \<Rightarrow> bool" where
  "startsWith s p = (take (length p) s = p)"

text \<open>\<^verbatim>\<open>toLowerCase\<close> on 8-bit characters: A..Z, and the accented capitals C0..DE but D7.\<close>

definition lower_char :: "char \<Rightarrow> char" where
  "lower_char c =
     (let n = of_char c :: nat
      in if (65 \<le> n \<and> n \<le> 90) \<or> (192 \<le> n \<and> n \<le> 222 \<and> n \<noteq> 215) then char_of (n + 32) else c)"

definition toLowerCase :: "string \<Rightarrow> string" where
  "toLowerCase s = map lower_char s"

text \<open>\<^verbatim>\<open>s.split(c)\<close> with a one-character separator: the pieces between the separators,
  empty ones kept.\<close>

fun split_char :: "char \<Rightarrow> string \<Rightarrow> string \<Rightarrow> string list" where
  "split_char sep cur [] = [cur]"
| "split_char sep cur (c # cs) =
     (if c = sep then cur # split_char sep [] cs else split_char sep (cur @ [c]) cs)"

text \<open>\<^verbatim>\<open>s.split(/[,\s]+/)\<close>: the pieces between the maximal runs of commas and blanks. A run at
  the start or at the end of the string leaves an empty piece there; the empty string gives
  one empty piece.\<close>

definition is_sep :: "char \<Rightarrow> bool" where
  "is_sep c = (c = CHR '','' \<or> is_ws c)"

fun split_seps :: "string \<Rightarrow> string \<Rightarrow> string list" where
  "split_seps cur [] = [cur]"
| "split_seps cur (c # cs) =
     (if is_sep c then
        (case cs of
           [] \<Rightarrow> cur # split_seps [] cs
         | c' # _ \<Rightarrow> if is_sep c' then split_seps cur cs else cur # split_seps [] cs)
      else split_seps (cur @ [c]) cs)"

text \<open>\<^verbatim>\<open>.map((x) => x.trim()).filter(Boolean)\<close> on a list of strings.\<close>

definition trim_nonempty :: "string list \<Rightarrow> string list" where
  "trim_nonempty xs = filter (\<lambda>x. x \<noteq> []) (map js_trim xs)"


section \<open>Property access\<close>

text \<open>\<^verbatim>\<open>o.k\<close> on a value that is not \<^verbatim>\<open>null\<close> or \<^verbatim>\<open>undefined\<close>: the property of a plain object,
  \<^verbatim>\<open>undefined\<close> when it has none of that name (and on the other values, for the names the
  handlers read). \<^verbatim>\<open>a && b\<close> and \<^verbatim>\<open>Object.keys\<close> follow.\<close>

fun js_get :: "jsval \<Rightarrow> string \<Rightarrow> jsval" where
  "js_get (JObj ps) k = (case map_of ps k of Some v \<Rightarrow> v | None \<Rightarrow> JUndefined)"
| "js_get _ k = JUndefined"

definition js_and :: "jsval \<Rightarrow> jsval \<Rightarrow> jsval" where
  "js_and a b = (if js_truthy a then b else a)"

fun js_elems :: "jsval \<Rightarrow> jsval list" where
  "js_elems (JArr xs) = xs"
| "js_elems _ = []"

fun Object_keys :: "jsval \<Rightarrow> string list" where
  "Object_keys (JObj ps) = map fst ps"
| "Object_keys (JArr xs) = map decimal [0..<length xs]"
| "Object_keys _ = []"

section \<open>A model of JSON.parse\<close>

text \<open>
  \<^verbatim>\<open>JSON.parse\<close> belongs to the JavaScript runtime. The functions of the repository that call
  it take it as a parameter \<open>json\<close> (\<open>None\<close> when it throws), so that what is proved of them
  holds whatever the runtime's parser returns. \<open>JSON_parse\<close> below is a concrete reading of
  the JSON grammar used to evaluate those functions on given texts. It reads texts whose
  strings stay within the 8-bit characters and whose numbers are integer literals of
  magnitude at most \<open>2^53\<close>; it gives \<open>None\<close> on a number with a fraction or an exponent and on
  a \<^verbatim>\<open>\u\<close> escape above \<^verbatim>\<open>00FF\<close>, which the values of this theory do not represent.
\<close>

definition is_json_ws :: "char \<Rightarrow> bool" where
  "is_json_ws c = (of_char c \<in> set [9, 10, 13, 32 :: nat])"

definition skip_ws :: "string \<Rightarrow> string" where
  "skip_ws s = dropWhile is_json_ws s"

definition hex_val :: "char \<Rightarrow> nat option" where
  "hex_val c =
     (let n = of_char c :: nat
      in if 48 \<le> n \<and> n \<le> 57 then Some (n - 48)
         else if 65 \<le> n \<and> n \<le> 70 then Some (n - 55)
         else if 97 \<le> n \<and> n \<le> 102 then Some (n - 87)
         else None)"

definition simple_escape :: "char \<Rightarrow> char option" where
  "simple_escape e =
     (if e = CHR 0x22 then Some (CHR 0x22)
      else if e = CHR 0x5C then Some (CHR 0x5C)
      else if e = CHR ''/'' then Some (CHR ''/'')
      else if e = CHR ''b'' then Some (CHR 0x08)
      else if e = CHR ''f'' then Some (CHR 0x0C)
      else if e = CHR ''n'' then Some (CHR 0x0A)
      else if e = CHR ''r'' then Some (CHR 0x0D)
      else if e = CHR ''t'' then Some (CHR 0x09)
      else None)"

definition unicode_escape :: "char \<Rightarrow> char \<Rightarrow> char \<Rightarrow> char \<Rightarrow> char option" where
  "unicode_escape a b c d =
     (case (hex_val a, hex_val b, hex_val c, hex_val d) of
        (Some h3, Some h2, Some h1, Some h0) \<Rightarrow>
          (let n = 4096 * h3 + 256 * h2 + 16 * h1 + h0 in if n < 256 then Some (char_of n) else None)
      | _ \<Rightarrow> None)"

definition cons_result :: "char option \<Rightarrow> (string \<times> string) option \<Rightarrow> (string \<times> string) option" where
  "cons_result c r =
     (case c of None \<Rightarrow> None
      | Some ch \<Rightarrow> (case r of None \<Rightarrow> None | Some (s, rest) \<Rightarrow> Some (ch # s, rest)))"

text \<open>The characters of a string literal after its opening quote, and the text after its
  closing quote.\<close>

fun json_string :: "string \<Rightarrow> (string \<times> string) option" where
  "json_string [] = None"
| "json_string (c # cs) =
     (if c = CHR 0x22 then Some ([], cs)
      else if c = CHR 0x5C then
        (case cs of
           [] \<Rightarrow> None
         | e # r \<Rightarrow>
             if e = CHR ''u'' then
               (case r of
                  a # b # c' # d # r' \<Rightarrow> cons_result (unicode_escape a b c' d) (json_string r')
                | _ \<Rightarrow> None)
             else cons_result (simple_escape e) (json_string r))
      else if (of_char c :: nat) < 32 then None
      else cons_result (Some c) (json_string cs))"

definition json_number :: "string \<Rightarrow> (jsval \<times> string) option" where
  "json_number s =
     (let neg = (s \<noteq> [] \<and> hd s = CHR ''-'');
          t = (if neg then tl s else s);
          ds = (if t \<noteq> [] \<and> hd t = CHR ''0'' then ''0'' else takeWhile is_digit t);
          rest = drop (length ds) t;
          n = int (digits_val ds)
      in if ds = [] then None
         else if rest \<noteq> [] \<and> hd rest \<in> set ''.eE'' then None
         else if 2 ^ 53 < n then None
         else Some (JNum (if neg then - n else n), rest))"

text \<open>The own property keys of the object a JSON text denotes, in the order of
  \<^verbatim>\<open>Object.keys\<close>: a repeated key keeps its first place and takes the last value; array
  indices come first, ascending, then the other keys as they were created.\<close>

definition obj_put :: "(string \<times> jsval) list \<Rightarrow> string \<times> jsval \<Rightarrow> (string \<times> jsval) list" where
  "obj_put ps kv =
     (if fst kv \<in> set (map fst ps) then map (\<lambda>p. if fst p = fst kv then kv else p) ps
      else ps @ [kv])"

definition is_array_index :: "string \<Rightarrow> bool" where
  "is_array_index k =
     (k \<noteq> [] \<and> list_all is_digit k \<and> (k = ''0'' \<or> hd k \<noteq> CHR ''0'') \<and> digits_val k < 2 ^ 32 - 1)"

definition mk_obj :: "(string \<times> jsval) list \<Rightarrow> jsval" where
  "mk_obj members =
     (let ps = foldl obj_put [] members
      in JObj (sort_key (\<lambda>p. digits_val (fst p)) (filter (\<lambda>p. is_array_index (fst p)) ps)
               @ filter (\<lambda>p. \<not> is_array_index (fst p)) ps))"

text \<open>The recursive descent, with fuel for the depth of the calls; \<open>JSON_parse\<close> gives a text
  \<open>s\<close> the fuel \<open>2 * length s + 2\<close>. A value that runs out of fuel is \<open>None\<close>, as a text too
  deep for the runtime's parser throws.\<close>

fun json_value :: "nat \<Rightarrow> string \<Rightarrow> (jsval \<times> string) option"
and json_elements :: "nat \<Rightarrow> string \<Rightarrow> (jsval list \<times> string) option"
and json_members :: "nat \<Rightarrow> string \<Rightarrow> ((string \<times> jsval) list \<times> string) option" where
  "json_value 0 s = None"
| "json_value (Suc n) s =
     (case skip_ws s of
        [] \<Rightarrow> None
      | c # cs \<Rightarrow>
          if c = CHR 0x22 then
            (case json_string cs of None \<Rightarrow> None | Some (str, r) \<Rightarrow> Some (JStr str, r))
          else if c = CHR ''['' then
            (case skip_ws cs of
               [] \<Rightarrow> None
             | d # r \<Rightarrow>
                 if d = CHR '']'' then Some (JArr [], r)
                 else (case json_elements n cs of None \<Rightarrow> None | Some (vs, r') \<Rightarrow> Some (JArr vs, r')))
          else if c = CHR ''{'' then
            (case skip_ws cs of
               [] \<Rightarrow> None
             | d # r \<Rightarrow>
                 if d = CHR ''}'' then Some (JObj [], r)
                 else (case json_members n cs of None \<Rightarrow> None | Some (ms, r') \<Rightarrow> Some (mk_obj ms, r')))
          else if c = CHR ''-'' \<or> is_digit c then json_number (c # cs)
          else if take 4 (c # cs) = ''true'' then Some (JBool True, drop 4 (c # cs))
          else if take 5 (c # cs) = ''false'' then Some (JBool False, drop 5 (c # cs))
          else if take 4 (c # cs) = ''null'' then Some (JNull, drop 4 (c # cs))
          else None)"
| "json_elements 0 s = None"
| "json_elements (Suc n) s =
     (case json_value n s of
        None \<Rightarrow> None
      | Some (v, r) \<Rightarrow>
          (case skip_ws r of
             [] \<Rightarrow> None
           | d # r' \<Rightarrow>
               if d = CHR '']'' then Some ([v], r')
               else if d = CHR '','' then
                 (case json_elements n r' of None \<Rightarrow> None | Some (vs, r'') \<Rightarrow> Some (v # vs, r''))
               else None))"
| "json_members 0 s = None"
| "json_members (Suc n) s =
     (case skip_ws s of
        [] \<Rightarrow> None
      | q # cs \<Rightarrow>
          if q \<noteq> CHR 0x22 then None
          else
            (case json_string cs of
               None \<Rightarrow> None
             | Some (k, r) \<Rightarrow>
                 (case skip_ws r of
                    [] \<Rightarrow> None
                  | col # r1 \<Rightarrow>
                      if col \<noteq> CHR '':'' then None
                      else
                        (case json_value n r1 of
                           None \<Rightarrow> None
                         | Some (v, r2) \<Rightarrow>
                             (case skip_ws r2 of
                                [] \<Rightarrow> None
                              | d # r3 \<Rightarrow>
                                  if d = CHR ''}'' then Some ([(k, v)], r3)
                                  else if d = CHR '','' then
                                    (case json_members n r3 of
                                       None \<Rightarrow> None
                                     | Some (ms, r4) \<Rightarrow> Some ((k, v) # ms, r4))
                                  else None)))))"

definition JSON_parse :: "string \<Rightarrow> jsval option" where
  "JSON_parse s =
     (case json_value (2 * length s + 2) s of
        None \<Rightarrow> None
      | Some (v, r) \<Rightarrow> if skip_ws r = [] then Some v else None)"

section \<open>Roles\<close>

text \<open>\<^verbatim>\<open>parseRoles(raw)\<close> of the API server (part_000, lines 134-151).\<close>

definition parseRoles :: "(string \<Rightarrow> jsval option) \<Rightarrow> jsval \<Rightarrow> string list" where
  "parseRoles json raw =
     (if raw = JNull \<or> raw = JUndefined then []
      else if js_isArray raw then map js_String (js_elems raw)
      else if js_typeof raw = TObject then Object_keys raw
      else
        (let s = js_trim (js_String raw)
         in if s = [] then []
            else
              (case json s of
                 None \<Rightarrow> trim_nonempty (split_seps [] s)
               | Some j \<Rightarrow>
                   if js_isArray j then map js_String (js_elems j)
                   else if js_truthy j \<and> js_typeof j = TObject then Object_keys j
                   else trim_nonempty (split_seps [] s))))"

text \<open>The server's configuration \<^verbatim>\<open>CFG\<close> (lines 47-68), the fields the handlers below read.\<close>

record config =
  enforceRoles :: bool
  writeRoles :: "string list"
  migratePlaintextPasswords :: bool
  migratePlaintextPasswordsOverwrite :: bool

text \<open>\<^verbatim>\<open>hasWriteRole(user)\<close> (lines 153-158).\<close>

definition hasWriteRole :: "(string \<Rightarrow> jsval option) \<Rightarrow> config \<Rightarrow> jsval \<Rightarrow> bool" where
  "hasWriteRole json cfg user =
     (if \<not> enforceRoles cfg then True
      else
        (let roles = map (\<lambda>r. toLowerCase r) (parseRoles json (js_and user (js_get user ''roles'')))
         in list_ex (\<lambda>r. r \<in> set roles) (writeRoles cfg)))"

text \<open>The widget (cag-pos-dashboard.js): \<^verbatim>\<open>safeJsonParse\<close> (lines 71-77), \<^verbatim>\<open>parseRoles(user)\<close>
  (lines 224-242) and \<^verbatim>\<open>canWrite(cfg, user)\<close> (lines 244-255).\<close>

definition safeJsonParse :: "(string \<Rightarrow> jsval option) \<Rightarrow> string \<Rightarrow> jsval" where
  "safeJsonParse json s = (case json s of None \<Rightarrow> JNull | Some v \<Rightarrow> v)"

definition widget_parseRoles :: "(string \<Rightarrow> jsval option) \<Rightarrow> jsval \<Rightarrow> string list" where
  "widget_parseRoles json user =
     (if \<not> js_truthy user then []
      else
        (let r = js_get user ''roles''
         in if \<not> js_truthy r then []
            else if js_isArray r then map js_String (js_elems r)
            else if js_typeof r = TString then
              (let parsed = safeJsonParse json (js_String r)
               in if js_isArray parsed then map js_String (js_elems parsed)
                  else if js_truthy parsed \<and> js_typeof parsed = TObject then Object_keys parsed
                  else trim_nonempty (split_seps [] (js_String r)))
            else if js_typeof r = TObject then Object_keys r
            else []))"

record widget_config =
  w_enforceRoles :: bool
  w_writeRoles :: "string list"

definition canWrite :: "(string \<Rightarrow> jsval option) \<Rightarrow> widget_config \<Rightarrow> jsval \<Rightarrow> bool" where
  "canWrite json cfg user =
     (if \<not> w_enforceRoles cfg then True
      else
        (let roles = widget_parseRoles json user
         in if roles = [] then False
            else
              (let roleSet = map toLowerCase roles
               in list_ex (\<lambda>r. toLowerCase r \<in> set roleSet) (w_writeRoles cfg))))"


section \<open>Numbers\<close>

text \<open>A JavaScript number as \<^verbatim>\<open>Number(v)\<close> returns it: not a number, an infinity, or a finite
  double, which is the rational it denotes. The reading of a string as a number
  (\<^verbatim>\<open>StringToNumber\<close> of the runtime) is the parameter \<open>str2num\<close>.\<close>

datatype jsnum = NaN | PosInf | NegInf | Fin rat

fun js_Number :: "(string \<Rightarrow> jsnum) \<Rightarrow> jsval \<Rightarrow> jsnum" where
  "js_Number str2num JUndefined = NaN"
| "js_Number str2num JNull = Fin 0"
| "js_Number str2num (JBool b) = Fin (if b then 1 else 0)"
| "js_Number str2num (JNum n) = Fin (of_int n)"
| "js_Number str2num (JStr s) = str2num s"
| "js_Number str2num (JArr xs) = str2num (js_String (JArr xs))"
| "js_Number str2num (JObj ps) = str2num (js_String (JObj ps))"

fun Number_isFinite :: "jsnum \<Rightarrow> bool" where
  "Number_isFinite (Fin _) = True"
| "Number_isFinite _ = False"

definition Math_trunc :: "rat \<Rightarrow> int" where
  "Math_trunc x = (if 0 \<le> x then \<lfloor>x\<rfloor> else \<lceil>x\<rceil>)"

text \<open>
  Arithmetic on doubles rounds. The rounding of a rational number to the nearest double (an
  infinity when it is out of range) belongs to the runtime and is the parameter
  \<open>round_double\<close>: it is how the database driver reads a decimal or an integer into a number,
  how \<^verbatim>\<open>Number\<close> reads a run of digits, and how a quotient is rounded. The sign of a zero is
  not represented.
\<close>

fun jsnum_truthy :: "jsnum \<Rightarrow> bool" where
  "jsnum_truthy (Fin x) = (x \<noteq> 0)"
| "jsnum_truthy NaN = False"
| "jsnum_truthy PosInf = True"
| "jsnum_truthy NegInf = True"

text \<open>\<^verbatim>\<open>a / b\<close> on numbers.\<close>

fun js_div :: "(rat \<Rightarrow> jsnum) \<Rightarrow> jsnum \<Rightarrow> jsnum \<Rightarrow> jsnum" where
  "js_div round_double (Fin a) (Fin b) =
     (if b \<noteq> 0 then round_double (a / b)
      else if a = 0 then NaN
      else if 0 < a then PosInf else NegInf)"
| "js_div round_double NaN b = NaN"
| "js_div round_double a NaN = NaN"
| "js_div round_double (Fin a) PosInf = Fin 0"
| "js_div round_double (Fin a) NegInf = Fin 0"
| "js_div round_double PosInf (Fin b) = (if 0 \<le> b then PosInf else NegInf)"
| "js_div round_double NegInf (Fin b) = (if 0 \<le> b then NegInf else PosInf)"
| "js_div round_double PosInf PosInf = NaN"
| "js_div round_double PosInf NegInf = NaN"
| "js_div round_double NegInf PosInf = NaN"
| "js_div round_double NegInf NegInf = NaN"

text \<open>\<^verbatim>\<open>clampInt(n, min, max, fallback)\<close> (part_000, lines 232-236).\<close>

definition clampInt :: "(string \<Rightarrow> jsnum) \<Rightarrow> jsval \<Rightarrow> int \<Rightarrow> int \<Rightarrow> int \<Rightarrow> int" where
  "clampInt str2num n mn mx fallback =
     (let x = js_Number str2num n
      in if \<not> Number_isFinite x then fallback
         else (case x of Fin q \<Rightarrow> max mn (min mx (Math_trunc q)) | _ \<Rightarrow> fallback))"

text \<open>The limit and the offset of \<^verbatim>\<open>GET /sales\<close> (lines 406-407), from the query object.\<close>

definition sales_limit :: "(string \<Rightarrow> jsnum) \<Rightarrow> jsval \<Rightarrow> int" where
  "sales_limit str2num query = clampInt str2num (js_and query (js_get query ''limit'')) 1 100 20"

definition sales_offset :: "(string \<Rightarrow> jsnum) \<Rightarrow> jsval \<Rightarrow> int" where
  "sales_offset str2num query = clampInt str2num (js_and query (js_get query ''offset'')) 0 1000000 0"

section \<open>Replies\<close>

record public_user =
  pu_id_user :: nat
  pu_username :: string
  pu_roles :: jsval
  pu_last_login :: jsval
  pu_is_active :: jsval

text \<open>The key figures of the summary this theory follows: \<^verbatim>\<open>revenue\<close>, \<^verbatim>\<open>salesCount\<close> and
  \<^verbatim>\<open>avgTicket\<close>, each a JavaScript number.\<close>

record kpis =
  revenue :: jsnum
  salesCount :: jsnum
  avgTicket :: jsnum

datatype reply =
    SendError nat string
  | SendLogin string public_user
  | SendSummary kpis
  | SendOk

text \<open>A handler sends a reply or lets an exception escape; the error handler (lines 845-851)
  answers an escaped exception that carries no status code with 500.\<close>

datatype outcome = Sent reply | Threw

fun errorHandler :: "outcome \<Rightarrow> reply" where
  "errorHandler (Sent r) = r"
| "errorHandler Threw = SendError 500 ''Server error''"

section \<open>Login\<close>

text \<open>\<^verbatim>\<open>passwordLooksHashed(pw)\<close> (lines 160-167).\<close>

definition passwordLooksHashed :: "jsval \<Rightarrow> bool" where
  "passwordLooksHashed pw =
     (if js_typeof pw \<noteq> TString \<or> \<not> js_truthy pw then False
      else
        (let s = js_String pw
         in if startsWith s ''$2a$'' \<or> startsWith s ''$2b$'' \<or> startsWith s ''$2y$'' then True
            else if startsWith s ''$argon2id$'' \<or> startsWith s ''$argon2i$'' then True
            else False))"

text \<open>A row of the table \<^verbatim>\<open>users\<close>, with the columns the server selects.\<close>

record user_row =
  id_user :: nat
  username :: string
  password :: jsval
  password_hash :: jsval
  roles :: jsval
  last_login :: jsval
  is_active :: jsval

datatype login_query = SelectUser | UpdatePasswordHash | UpdatePassword | UpdateLastLogin

text \<open>What the login handler calls outside the repository: \<^verbatim>\<open>bcrypt.compare\<close> and
  \<^verbatim>\<open>bcrypt.hash\<close> (\<open>None\<close> when the promise rejects), \<^verbatim>\<open>jwt.sign\<close> with the configured secret
  and expiry (\<open>None\<close> when it throws), the database's comparison of the column
  \<^verbatim>\<open>username\<close> with the given name, which statements of this request fail, and \<^verbatim>\<open>NOW()\<close>.\<close>

record login_env =
  bcrypt_compare :: "string \<Rightarrow> string \<Rightarrow> bool option"
  bcrypt_hash :: "string \<Rightarrow> nat \<Rightarrow> string option"
  jwt_sign :: "nat \<Rightarrow> string \<Rightarrow> string option"
  username_matches :: "string \<Rightarrow> string \<Rightarrow> bool"
  query_fails :: "login_query \<Rightarrow> bool"
  now :: jsval

text \<open>\<^verbatim>\<open>getUserByUsername\<close> (lines 169-181): without the column \<^verbatim>\<open>password_hash\<close> the row
  read has no such property.\<close>

definition getUserByUsername :: "login_env \<Rightarrow> bool \<Rightarrow> user_row list \<Rightarrow> string \<Rightarrow> user_row option" where
  "getUserByUsername env hasCol db name =
     map_option (\<lambda>u. if hasCol then u else u\<lparr>password_hash := JUndefined\<rparr>)
       (find (\<lambda>u. username_matches env (username u) name) db)"

definition publicUser :: "user_row \<Rightarrow> public_user" where
  "publicUser u =
     \<lparr>pu_id_user = id_user u, pu_username = username u, pu_roles = roles u,
      pu_last_login = last_login u, pu_is_active = is_active u\<rparr>"

text \<open>\<^verbatim>\<open>UPDATE users SET ... WHERE id_user = ?\<close>.\<close>

definition update_user :: "nat \<Rightarrow> (user_row \<Rightarrow> user_row) \<Rightarrow> user_row list \<Rightarrow> user_row list" where
  "update_user uid f db = map (\<lambda>u. if id_user u = uid then f u else u) db"

text \<open>The values \<^verbatim>\<open>stored\<close> and \<^verbatim>\<open>storedHash\<close> (lines 254-255), and the verification of the
  password (lines 256-263): the result is \<^verbatim>\<open>ok\<close>.\<close>

definition stored_of :: "user_row \<Rightarrow> jsval" where
  "stored_of user = js_or (password user) (JStr [])"

definition storedHash_of :: "bool \<Rightarrow> user_row \<Rightarrow> jsval" where
  "storedHash_of hasCol user = (if hasCol then js_or (password_hash user) (JStr []) else JStr [])"

definition login_verify :: "login_env \<Rightarrow> bool \<Rightarrow> user_row \<Rightarrow> string \<Rightarrow> bool" where
  "login_verify env hasCol user pw =
     (let stored = stored_of user;
          storedHash = storedHash_of hasCol user
      in if passwordLooksHashed storedHash then
           (case bcrypt_compare env pw (js_String storedHash) of None \<Rightarrow> False | Some b \<Rightarrow> b)
         else if passwordLooksHashed stored then
           (case bcrypt_compare env pw (js_String stored) of None \<Rightarrow> False | Some b \<Rightarrow> b)
         else stored = JStr pw)"

text \<open>The upgrade of the stored password (lines 266-273): the table after it, or \<open>None\<close> when
  an exception escapes.\<close>

definition login_migrate ::
  "config \<Rightarrow> login_env \<Rightarrow> bool \<Rightarrow> user_row \<Rightarrow> string \<Rightarrow> user_row list \<Rightarrow> user_row list option" where
  "login_migrate cfg env hasCol user pw db =
     (let stored = stored_of user;
          storedHash = storedHash_of hasCol user
      in if migratePlaintextPasswords cfg \<and> hasCol \<and> \<not> passwordLooksHashed storedHash then
           (case bcrypt_hash env pw 12 of
              None \<Rightarrow> None
            | Some h \<Rightarrow>
                if query_fails env UpdatePasswordHash then None
                else Some (update_user (id_user user) (\<lambda>u. u\<lparr>password_hash := JStr h\<rparr>) db))
         else if migratePlaintextPasswords cfg \<and> \<not> hasCol \<and> migratePlaintextPasswordsOverwrite cfg
                 \<and> \<not> passwordLooksHashed stored then
           (case bcrypt_hash env pw 12 of
              None \<Rightarrow> None
            | Some h \<Rightarrow>
                if query_fails env UpdatePassword then None
                else Some (update_user (id_user user) (\<lambda>u. u\<lparr>password := JStr h\<rparr>) db))
         else Some db)"

text \<open>The handler after the user was read and found active (lines 254-286).\<close>

definition login_user ::
  "config \<Rightarrow> login_env \<Rightarrow> bool \<Rightarrow> user_row list \<Rightarrow> user_row \<Rightarrow> string \<Rightarrow> outcome \<times> user_row list" where
  "login_user cfg env hasCol db user pw =
     (if \<not> login_verify env hasCol user pw then (Sent (SendError 401 ''Invalid credentials''), db)
      else
        (case login_migrate cfg env hasCol user pw db of
           None \<Rightarrow> (Threw, db)
         | Some db1 \<Rightarrow>
             if query_fails env UpdateLastLogin then (Threw, db1)
             else
               (let db2 = update_user (id_user user) (\<lambda>u. u\<lparr>last_login := now env\<rparr>) db1
                in case jwt_sign env (id_user user) (username user) of
                     None \<Rightarrow> (Threw, db2)
                   | Some token \<Rightarrow> (Sent (SendLogin token (publicUser user)), db2))))"

text \<open>\<^verbatim>\<open>POST /auth/login\<close> (lines 244-287): the outcome and the table \<^verbatim>\<open>users\<close> after the
  request.\<close>

definition login ::
  "config \<Rightarrow> login_env \<Rightarrow> bool \<Rightarrow> user_row list \<Rightarrow> jsval \<Rightarrow> outcome \<times> user_row list" where
  "login cfg env hasCol db reqBody =
     (let body = js_or reqBody (JObj []);
          name = (if js_typeof (js_get body ''username'') = TString
                  then js_trim (js_String (js_get body ''username'')) else []);
          pw = (if js_typeof (js_get body ''password'') = TString
                then js_String (js_get body ''password'') else [])
      in if name = [] \<or> pw = [] then (Sent (SendError 400 ''Missing username/password''), db)
         else if query_fails env SelectUser then (Threw, db)
         else
           (case getUserByUsername env hasCol db name of
              None \<Rightarrow> (Sent (SendError 401 ''Invalid credentials''), db)
            | Some user \<Rightarrow>
                if js_String (is_active user) = ''0''
                then (Sent (SendError 401 ''Invalid credentials''), db)
                else login_user cfg env hasCol db user pw))"


section \<open>Dates\<close>

text \<open>\<^verbatim>\<open>isISODate(s)\<close> (lines 112-114): a string of four digits, a hyphen, two digits, a hyphen
  and two digits.\<close>

fun iso_pattern :: "string \<Rightarrow> bool" where
  "iso_pattern [y1, y2, y3, y4, h1, m1, m2, h2, d1, d2] =
     (is_digit y1 \<and> is_digit y2 \<and> is_digit y3 \<and> is_digit y4 \<and> h1 = CHR ''-''
      \<and> is_digit m1 \<and> is_digit m2 \<and> h2 = CHR ''-'' \<and> is_digit d1 \<and> is_digit d2)"
| "iso_pattern _ = False"

definition isISODate :: "jsval \<Rightarrow> bool" where
  "isISODate s = (js_typeof s = TString \<and> iso_pattern (js_String s))"

text \<open>
  The \<^verbatim>\<open>Date\<close> objects of \<^verbatim>\<open>addDaysIso\<close> are at midnight UTC, so a date is its day number, the
  days since 1 January 1970. The functions are those of the language standard:
  \<^verbatim>\<open>DaysInYear\<close>, \<^verbatim>\<open>DayFromYear\<close>, \<^verbatim>\<open>YearFromTime\<close> (the largest year that starts on or before the
  day, found by an estimate corrected by one), \<^verbatim>\<open>MonthFromTime\<close>, \<^verbatim>\<open>DateFromTime\<close> and
  \<^verbatim>\<open>MakeDay\<close>; months count from 0.
\<close>

definition InLeapYear :: "int \<Rightarrow> bool" where
  "InLeapYear y = (y mod 4 = 0 \<and> (y mod 100 \<noteq> 0 \<or> y mod 400 = 0))"

definition DaysInYear :: "int \<Rightarrow> int" where
  "DaysInYear y = (if InLeapYear y then 366 else 365)"

definition DayFromYear :: "int \<Rightarrow> int" where
  "DayFromYear y = 365 * (y - 1970) + (y - 1969) div 4 - (y - 1901) div 100 + (y - 1601) div 400"

definition YearFromDay :: "int \<Rightarrow> int" where
  "YearFromDay t =
     (let y = 1970 + (400 * t) div 146097
      in if DayFromYear (y + 1) \<le> t then y + 1
         else if DayFromYear y \<le> t then y
         else y - 1)"

definition DayWithinYear :: "int \<Rightarrow> int" where
  "DayWithinYear t = t - DayFromYear (YearFromDay t)"

text \<open>The day within its year on which month \<open>mn\<close> starts.\<close>

definition month_start :: "int \<Rightarrow> bool \<Rightarrow> int" where
  "month_start mn leap =
     (let l = (if leap then 1 else 0)
      in if mn = 0 then 0
         else if mn = 1 then 31
         else if mn = 2 then 59 + l
         else if mn = 3 then 90 + l
         else if mn = 4 then 120 + l
         else if mn = 5 then 151 + l
         else if mn = 6 then 181 + l
         else if mn = 7 then 212 + l
         else if mn = 8 then 243 + l
         else if mn = 9 then 273 + l
         else if mn = 10 then 304 + l
         else 334 + l)"

definition MonthFromDay :: "int \<Rightarrow> int" where
  "MonthFromDay t =
     (let d = DayWithinYear t;
          l = (if InLeapYear (YearFromDay t) then 1 else 0)
      in if d < 31 then 0
         else if d < 59 + l then 1
         else if d < 90 + l then 2
         else if d < 120 + l then 3
         else if d < 151 + l then 4
         else if d < 181 + l then 5
         else if d < 212 + l then 6
         else if d < 243 + l then 7
         else if d < 273 + l then 8
         else if d < 304 + l then 9
         else if d < 334 + l then 10
         else 11)"

definition DateFromDay :: "int \<Rightarrow> int" where
  "DateFromDay t =
     DayWithinYear t - month_start (MonthFromDay t) (InLeapYear (YearFromDay t)) + 1"

definition MakeDay :: "int \<Rightarrow> int \<Rightarrow> int \<Rightarrow> int" where
  "MakeDay year month date =
     (let ym = year + month div 12;
          mn = month mod 12
      in DayFromYear ym + month_start mn (InLeapYear ym) + date - 1)"

text \<open>\<^verbatim>\<open>Date.UTC(y, m, d)\<close> reads a year from 0 to 99 as a year of the twentieth century.\<close>

definition Date_UTC :: "int \<Rightarrow> int \<Rightarrow> int \<Rightarrow> int" where
  "Date_UTC y m d = MakeDay (if 0 \<le> y \<and> y \<le> 99 then 1900 + y else y) m d"

definition setUTCDate :: "int \<Rightarrow> int \<Rightarrow> int" where
  "setUTCDate t date = MakeDay (YearFromDay t) (MonthFromDay t) date"

definition padStart2 :: "string \<Rightarrow> string" where
  "padStart2 s = replicate (2 - length s) (CHR ''0'') @ s"

text \<open>Lines 119-123 of \<^verbatim>\<open>addDaysIso\<close>: the year, the month (from 1) and the day of the date
  \<open>deltaDays\<close> after \<^verbatim>\<open>Date.UTC(y, m - 1, d)\<close>.\<close>

definition addDays_utc :: "int \<Rightarrow> int \<Rightarrow> int \<Rightarrow> int \<Rightarrow> int \<times> int \<times> int" where
  "addDays_utc y m d deltaDays =
     (let dt = Date_UTC y (m - 1) d;
          dt' = setUTCDate dt (DateFromDay dt + deltaDays)
      in (YearFromDay dt', MonthFromDay dt' + 1, DateFromDay dt'))"

text \<open>\<^verbatim>\<open>addDaysIso(iso, deltaDays)\<close> (lines 116-125). \<^verbatim>\<open>Number\<close> is applied to the pieces between
  the hyphens; \<open>digits_val\<close> is its value on a run of decimal digits (0 on the empty run), and
  the pieces of a string that \<open>isISODate\<close> accepts, the only strings \<open>rangeToSql\<close> passes, are
  such runs. \<open>None\<close> is \<^verbatim>\<open>null\<close>.\<close>

definition addDaysIso :: "jsval \<Rightarrow> int \<Rightarrow> string option" where
  "addDaysIso isoStr deltaDays =
     (case map (\<lambda>p. int (digits_val p))
             (split_char (CHR ''-'') [] (js_String (js_or isoStr (JStr [])))) of
        y # m # d # _ \<Rightarrow>
          if y = 0 \<or> m = 0 \<or> d = 0 then None
          else
            (case addDays_utc y m d deltaDays of
               (yy, mm, dd) \<Rightarrow>
                 Some (int_to_string yy @ ''-'' @ padStart2 (int_to_string mm) @ ''-''
                       @ padStart2 (int_to_string dd)))
      | _ \<Rightarrow> None)"

text \<open>\<^verbatim>\<open>rangeToSql(fromIso, toIso)\<close> (lines 127-132); a template prints \<^verbatim>\<open>null\<close> as
  \<^verbatim>\<open>"null"\<close>.\<close>

record sql_range =
  r_from :: string
  r_toExcl :: string

definition template_of :: "string option \<Rightarrow> string" where
  "template_of x = (case x of None \<Rightarrow> ''null'' | Some s \<Rightarrow> s)"

definition rangeToSql :: "jsval \<Rightarrow> jsval \<Rightarrow> sql_range option" where
  "rangeToSql fromIso toIso =
     (if \<not> isISODate fromIso \<or> \<not> isISODate toIso then None
      else Some \<lparr>r_from = js_String fromIso @ '' 00:00:00'',
                 r_toExcl = template_of (addDaysIso toIso 1) @ '' 00:00:00''\<rparr>)"

section \<open>The summary of the dashboard\<close>

text \<open>A row of the table \<^verbatim>\<open>sales\<close>: amounts are exact decimals, \<open>None\<close> is \<^verbatim>\<open>NULL\<close>, and a
  \<^verbatim>\<open>DATETIME\<close> is a point on a time line of integers. The database's reading of a
  date-time literal as such a point is the parameter \<open>datetime_of\<close>.\<close>

record sale =
  id_sale :: nat
  total_amount :: "rat option"
  last_updated :: "int option"

text \<open>\<^verbatim>\<open>WHERE s.last_updated >= ? AND s.last_updated < ?\<close>, \<^verbatim>\<open>SUM\<close> over a column (\<^verbatim>\<open>NULL\<close> when
  no row has a value) and \<^verbatim>\<open>COALESCE\<close>.\<close>

definition in_range :: "(string \<Rightarrow> int) \<Rightarrow> sql_range \<Rightarrow> sale \<Rightarrow> bool" where
  "in_range datetime_of r s =
     (case last_updated s of
        None \<Rightarrow> False
      | Some t \<Rightarrow> datetime_of (r_from r) \<le> t \<and> t < datetime_of (r_toExcl r))"

definition sql_sum :: "rat option list \<Rightarrow> rat option" where
  "sql_sum col = (case List.map_filter (\<lambda>v. v) col of [] \<Rightarrow> None | ys \<Rightarrow> Some (sum_list ys))"

definition coalesce :: "'a option \<Rightarrow> 'a \<Rightarrow> 'a" where
  "coalesce v d = (case v of None \<Rightarrow> d | Some x \<Rightarrow> x)"

text \<open>\<^verbatim>\<open>GET /dashboard/summary\<close> (lines 305-390), with the first query (lines 311-319) and
  the key figures computed from it (lines 380-385). The row of the query holds the sum and
  the count as the numbers the driver read them into (\<^verbatim>\<open>decimalNumbers\<close> is set, line 87);
  \<^verbatim>\<open>Number\<close> leaves a number as it is.\<close>

definition dashboard_summary ::
  "(rat \<Rightarrow> jsnum) \<Rightarrow> (string \<Rightarrow> int) \<Rightarrow> sale list \<Rightarrow> jsval \<Rightarrow> reply" where
  "dashboard_summary round_double datetime_of sales query =
     (let fromIso = js_and query (js_get query ''from'');
          toIso = js_and query (js_get query ''to'')
      in case rangeToSql fromIso toIso of
           None \<Rightarrow> SendError 400 ''Invalid from/to (expected YYYY-MM-DD)''
         | Some r \<Rightarrow>
             (let rows = filter (in_range datetime_of r) sales;
                  kpi_revenue = round_double (coalesce (sql_sum (map total_amount rows)) 0);
                  kpi_salesCount = round_double (of_nat (length rows))
              in SendSummary
                   \<lparr>revenue = kpi_revenue,
                    salesCount = kpi_salesCount,
                    avgTicket = (if jsnum_truthy kpi_salesCount
                                 then js_div round_double kpi_revenue kpi_salesCount
                                 else Fin 0)\<rparr>))"

section \<open>Deleting an offer\<close>

text \<open>The tables \<^verbatim>\<open>product_offers\<close> and \<^verbatim>\<open>product_offers_products\<close>.\<close>

record offer =
  id_offer :: nat
  offer_name :: string

record offer_product =
  op_offer_id :: nat
  op_product_id :: nat

record offers_db =
  product_offers :: "offer list"
  product_offers_products :: "offer_product list"

datatype offer_step = GetConnection | BeginTransaction | DeleteJoinRows | DeleteOffer | Commit

text \<open>\<^verbatim>\<open>WHERE offer_id = ?\<close> and \<^verbatim>\<open>WHERE id_offer = ?\<close> with the number the handler sends: an id
  of the table equals a finite number when it is that number, and no id equals a number
  that is not finite.\<close>

fun sql_id_eq :: "jsnum \<Rightarrow> nat \<Rightarrow> bool" where
  "sql_id_eq (Fin q) c = (of_nat c = q)"
| "sql_id_eq _ c = False"

text \<open>\<^verbatim>\<open>DELETE /offers/:id\<close> (lines 823-842): the outcome and the committed state of the two
  tables after the request. The id is \<^verbatim>\<open>Number(idRaw)\<close> of a run of decimal digits, the double
  nearest to the integer the digits write; \<^verbatim>\<open>!id\<close> refuses zero. \<open>fails\<close> tells which step of
  this request throws; the handler then rolls back and throws again, and the committed state
  is the one before the request.\<close>

definition delete_offer ::
  "(rat \<Rightarrow> jsnum) \<Rightarrow> (offer_step \<Rightarrow> bool) \<Rightarrow> offers_db \<Rightarrow> string \<Rightarrow> outcome \<times> offers_db" where
  "delete_offer round_double fails db idRaw =
     (let id = (if idRaw \<noteq> [] \<and> list_all is_digit idRaw
                then Some (round_double (of_nat (digits_val idRaw))) else None)
      in case id of
           None \<Rightarrow> (Sent (SendError 400 ''Invalid id''), db)
         | Some i \<Rightarrow>
             if \<not> jsnum_truthy i then (Sent (SendError 400 ''Invalid id''), db)
             else if fails GetConnection then (Threw, db)
             else if fails BeginTransaction then (Threw, db)
             else if fails DeleteJoinRows then (Threw, db)
             else
               (let db1 = db\<lparr>product_offers_products :=
                              filter (\<lambda>j. \<not> sql_id_eq i (op_offer_id j)) (product_offers_products db)\<rparr>
                in if fails DeleteOffer then (Threw, db)
                   else
                     (let affectedRows = length (filter (\<lambda>x. sql_id_eq i (id_offer x)) (product_offers db1));
                          db2 = db1\<lparr>product_offers :=
                                      filter (\<lambda>x. \<not> sql_id_eq i (id_offer x)) (product_offers db1)\<rparr>
                      in if fails Commit then (Threw, db)
                         else if affectedRows = 0 then (Sent (SendError 404 ''Not found''), db2)
                         else (Sent SendOk, db2))))"

section \<open>Notions for the statements\<close>

text \<open>The statement the upgrade of lines 266-273 attempts, if any: the first branch writes
  \<^verbatim>\<open>password_hash\<close>, the second overwrites \<^verbatim>\<open>password\<close>.\<close>

definition upgrade_write :: "config \<Rightarrow> bool \<Rightarrow> user_row \<Rightarrow> login_query option" where
  "upgrade_write cfg hasCol user =
     (if migratePlaintextPasswords cfg \<and> hasCol \<and> \<not> passwordLooksHashed (storedHash_of hasCol user)
      then Some UpdatePasswordHash
      else if migratePlaintextPasswords cfg \<and> \<not> hasCol \<and> migratePlaintextPasswordsOverwrite cfg
              \<and> \<not> passwordLooksHashed (stored_of user)
      then Some UpdatePassword
      else None)"


text \<open>The non-empty pieces of \<^verbatim>\<open>s.split(/[,\s]+/)\<close>: the maximal runs of characters that are
  neither commas nor blanks.\<close>

fun words_of :: "string \<Rightarrow> string \<Rightarrow> string list" where
  "words_of cur [] = (if cur = [] then [] else [cur])"
| "words_of cur (c # cs) =
     (if is_sep c then (if cur = [] then [] else [cur]) @ words_of [] cs
      else words_of (cur @ [c]) cs)"

text \<open>Calendar dates: the days of a month, the dates of the calendar, the day after a date,
  and a date written as \<^verbatim>\<open>addDaysIso\<close> writes it.\<close>

definition days_in_month :: "int \<Rightarrow> int \<Rightarrow> int" where
  "days_in_month y m =
     (if m = 2 then (if InLeapYear y then 29 else 28)
      else if m = 4 \<or> m = 6 \<or> m = 9 \<or> m = 11 then 30
      else 31)"

definition valid_date :: "int \<Rightarrow> int \<Rightarrow> int \<Rightarrow> bool" where
  "valid_date y m d = (1 \<le> m \<and> m \<le> 12 \<and> 1 \<le> d \<and> d \<le> days_in_month y m)"

definition next_day :: "int \<Rightarrow> int \<Rightarrow> int \<Rightarrow> int \<times> int \<times> int" where
  "next_day y m d =
     (if d < days_in_month y m then (y, m, d + 1)
      else if m < 12 then (y, m + 1, 1)
      else (y + 1, 1, 1))"

text \<open>The year, the month and the day written in a string that \<open>isISODate\<close> accepts.\<close>

definition iso_fields :: "string \<Rightarrow> int \<times> int \<times> int" where
  "iso_fields s =
     (int (digits_val (take 4 s)), int (digits_val (take 2 (drop 5 s))), int (digits_val (drop 8 s)))"

definition iso_date :: "int \<times> int \<times> int \<Rightarrow> string" where
  "iso_date ymd =
     (case ymd of
        (y, m, d) \<Rightarrow>
          int_to_string y @ ''-'' @ padStart2 (int_to_string m) @ ''-'' @ padStart2 (int_to_string d))"

section \<open>Example data\<close>

text \<open>An environment for examples: a password matches a hash when the hash is the prefix
  \<^verbatim>\<open>$2b$12$\<close> followed by the password, and \<^verbatim>\<open>compare\<close> rejects a value without that prefix;
  user names are compared without regard to case; no statement fails.\<close>

definition example_env :: login_env where
  "example_env =
     \<lparr>bcrypt_compare = (\<lambda>p h. if startsWith h ''$2b$12$'' then Some (h = ''$2b$12$'' @ p) else None),
      bcrypt_hash = (\<lambda>p cost. Some (''$2b$12$'' @ p)),
      jwt_sign = (\<lambda>sub name. Some (''jwt.'' @ name)),
      username_matches = (\<lambda>col name. toLowerCase col = toLowerCase name),
      query_fails = (\<lambda>q. False),
      now = JStr ''2024-06-01 10:00:00''\<rparr>"

text \<open>The same environment when the statement that writes \<^verbatim>\<open>password_hash\<close> fails.\<close>

definition example_env_upgrade_fails :: login_env where
  "example_env_upgrade_fails = example_env\<lparr>query_fails := (\<lambda>q. q = UpdatePasswordHash)\<rparr>"

definition example_cfg :: config where
  "example_cfg =
     \<lparr>enforceRoles = True, writeRoles = [''admin'', ''manager''],
      migratePlaintextPasswords = True, migratePlaintextPasswordsOverwrite = False\<rparr>"

text \<open>A user whose password is stored in clear, and one whose stored hash is malformed.\<close>

definition example_user :: user_row where
  "example_user =
     \<lparr>id_user = 1, username = ''ana'', password = JStr ''secret'', password_hash = JNull,
      roles = JStr ''admin'', last_login = JNull, is_active = JNum 1\<rparr>"

definition example_user_bad_hash :: user_row where
  "example_user_bad_hash =
     \<lparr>id_user = 2, username = ''bob'', password = JStr ''secret'', password_hash = JStr ''$2a$??'',
      roles = JStr ''staff'', last_login = JNull, is_active = JNum 1\<rparr>"

definition example_body :: "string \<Rightarrow> string \<Rightarrow> jsval" where
  "example_body name pw = JObj [(''username'', JStr name), (''password'', JStr pw)]"

section \<open>Pagination of the sales listing\<close>

lemma js_and_obj: "js_and (JObj ps) v = v"
  by (simp add: js_and_def)

lemma clampInt_Fin:
  "js_Number str2num n = Fin q \<Longrightarrow> clampInt str2num n mn mx fb = max mn (min mx (Math_trunc q))"
  by (simp add: clampInt_def)

lemma clampInt_not_finite:
  "\<not> Number_isFinite (js_Number str2num n) \<Longrightarrow> clampInt str2num n mn mx fb = fb"
  by (simp add: clampInt_def)

text \<open>
  Claim C8. The limit of the sales listing is the default 20 when the query has no
  \<^verbatim>\<open>limit\<close>, and the given number, truncated to an integer and clamped to the interval from 1
  to 100, when it is a finite number; the offset is the default 0 when absent and the given
  number clamped to the interval from 0 to 1000000 when it is a finite number. A value that
  is given but is not a finite number also yields the default. A limit of 500 becomes 100
  and an offset of -5 becomes 0.
\<close>

theorem pagination_clamping:
  "(js_get (JObj ps) ''limit'' = JUndefined \<longrightarrow> sales_limit str2num (JObj ps) = 20)
   \<and> (js_get (JObj ps) ''offset'' = JUndefined \<longrightarrow> sales_offset str2num (JObj ps) = 0)
   \<and> (js_Number str2num (js_get (JObj ps) ''limit'') = Fin q \<longrightarrow>
        sales_limit str2num (JObj ps) = max 1 (min 100 (Math_trunc q))
        \<and> 1 \<le> sales_limit str2num (JObj ps) \<and> sales_limit str2num (JObj ps) \<le> 100)
   \<and> (js_Number str2num (js_get (JObj ps) ''offset'') = Fin q' \<longrightarrow>
        sales_offset str2num (JObj ps) = max 0 (min 1000000 (Math_trunc q'))
        \<and> 0 \<le> sales_offset str2num (JObj ps) \<and> sales_offset str2num (JObj ps) \<le> 1000000)
   \<and> (\<not> Number_isFinite (js_Number str2num (js_get (JObj ps) ''limit''))
        \<longrightarrow> sales_limit str2num (JObj ps) = 20)
   \<and> (\<not> Number_isFinite (js_Number str2num (js_get (JObj ps) ''offset''))
        \<longrightarrow> sales_offset str2num (JObj ps) = 0)
   \<and> (str2num ''500'' = Fin 500 \<longrightarrow> sales_limit str2num (JObj [(''limit'', JStr ''500'')]) = 100)
   \<and> (str2num ''-5'' = Fin (- 5) \<longrightarrow> sales_offset str2num (JObj [(''offset'', JStr ''-5'')]) = 0)"
proof -
  have g: "\<not> Number_isFinite (js_Number str2num (js_get (JObj ps) ''limit''))
        \<Longrightarrow> sales_limit str2num (JObj ps) = 20"
    by (simp add: sales_limit_def js_and_obj clampInt_not_finite)
  have h: "\<not> Number_isFinite (js_Number str2num (js_get (JObj ps) ''offset''))
        \<Longrightarrow> sales_offset str2num (JObj ps) = 0"
    by (simp add: sales_offset_def js_and_obj clampInt_not_finite)
  have a: "js_get (JObj ps) ''limit'' = JUndefined \<Longrightarrow> sales_limit str2num (JObj ps) = 20"
    by (simp add: sales_limit_def js_and_obj clampInt_not_finite)
  have b: "js_get (JObj ps) ''offset'' = JUndefined \<Longrightarrow> sales_offset str2num (JObj ps) = 0"
    by (simp add: sales_offset_def js_and_obj clampInt_not_finite)
  have c: "js_Number str2num (js_get (JObj ps) ''limit'') = Fin q \<Longrightarrow>
        sales_limit str2num (JObj ps) = max 1 (min 100 (Math_trunc q))"
    by (simp only: sales_limit_def js_and_obj clampInt_Fin)
  have d: "js_Number str2num (js_get (JObj ps) ''offset'') = Fin q' \<Longrightarrow>
        sales_offset str2num (JObj ps) = max 0 (min 1000000 (Math_trunc q'))"
    by (simp only: sales_offset_def js_and_obj clampInt_Fin)
  have e: "str2num ''500'' = Fin 500 \<Longrightarrow> sales_limit str2num (JObj [(''limit'', JStr ''500'')]) = 100"
    by (simp add: sales_limit_def js_and_obj clampInt_def Math_trunc_def)
  have f: "str2num ''-5'' = Fin (- 5) \<Longrightarrow> sales_offset str2num (JObj [(''offset'', JStr ''-5'')]) = 0"
    by (simp add: sales_offset_def js_and_obj clampInt_def Math_trunc_def)
  from a b c d e f g h show ?thesis by auto
qed

theorem pagination_clamping_witness:
  "sales_limit (\<lambda>s. if s = ''500'' then Fin 500 else if s = ''-5'' then Fin (- 5) else NaN)
     (JObj [(''limit'', JStr ''500'')]) = 100
   \<and> sales_offset (\<lambda>s. if s = ''500'' then Fin 500 else if s = ''-5'' then Fin (- 5) else NaN)
     (JObj [(''limit'', JStr ''500'')]) = 0
   \<and> sales_offset (\<lambda>s. if s = ''500'' then Fin 500 else if s = ''-5'' then Fin (- 5) else NaN)
     (JObj [(''offset'', JStr ''-5'')]) = 0
   \<and> sales_limit (\<lambda>s. if s = ''500'' then Fin 500 else if s = ''-5'' then Fin (- 5) else NaN)
     (JObj [(''offset'', JStr ''-5'')]) = 20"
  using pagination_clamping [of "[(''limit'', JStr ''500'')]"
      "\<lambda>s. if s = ''500'' then Fin 500 else if s = ''-5'' then Fin (- 5) else NaN" 500 0]
    pagination_clamping [of "[(''offset'', JStr ''-5'')]"
      "\<lambda>s. if s = ''500'' then Fin 500 else if s = ''-5'' then Fin (- 5) else NaN" 0 "- 5"]
  by (simp add: Math_trunc_def)

section \<open>Write access\<close>

lemma list_ex_inter: "list_ex (\<lambda>r. r \<in> set xs) ys = (set xs \<inter> set ys \<noteq> {})"
  by (auto simp: list_ex_iff)

text \<open>
  Claim C6. With role enforcement disabled a user may write whatever the roles are. With
  enforcement enabled \<^verbatim>\<open>hasWriteRole\<close> of the server is true exactly when the user's parsed,
  lowercased roles meet the configured list of write roles; \<^verbatim>\<open>canWrite\<close> of the widget is true
  exactly when they meet that list, its names lowercased as the widget compares them.
\<close>

theorem write_gating:
  "hasWriteRole json cfg user =
     (if enforceRoles cfg
      then set (map toLowerCase (parseRoles json (js_and user (js_get user ''roles''))))
             \<inter> set (writeRoles cfg) \<noteq> {}
      else True)
   \<and> canWrite json wcfg user =
     (if w_enforceRoles wcfg
      then set (map toLowerCase (widget_parseRoles json user))
             \<inter> set (map toLowerCase (w_writeRoles wcfg)) \<noteq> {}
      else True)"
proof -
  have backend: "hasWriteRole json cfg user =
     (if enforceRoles cfg
      then set (map toLowerCase (parseRoles json (js_and user (js_get user ''roles''))))
             \<inter> set (writeRoles cfg) \<noteq> {}
      else True)"
    by (simp add: hasWriteRole_def Let_def list_ex_inter)
  have widget: "canWrite json wcfg user =
     (if w_enforceRoles wcfg
      then set (map toLowerCase (widget_parseRoles json user))
             \<inter> set (map toLowerCase (w_writeRoles wcfg)) \<noteq> {}
      else True)"
  proof (cases "widget_parseRoles json user = []")
    case True
    then show ?thesis by (simp add: canWrite_def)
  next
    case False
    have "list_ex (\<lambda>r. toLowerCase r \<in> set xs) ys = (set xs \<inter> set (map toLowerCase ys) \<noteq> {})"
      for xs ys
      by (auto simp: list_ex_iff)
    with False show ?thesis by (simp add: canWrite_def Let_def)
  qed
  from backend widget show ?thesis by (rule conjI)
qed

theorem write_gating_witness:
  "hasWriteRole JSON_parse
     \<lparr>enforceRoles = True, writeRoles = [''admin'', ''manager''],
      migratePlaintextPasswords = False, migratePlaintextPasswordsOverwrite = False\<rparr>
     (JObj [(''roles'', JStr ''Staff, Manager'')])
   \<and> \<not> hasWriteRole JSON_parse
     \<lparr>enforceRoles = True, writeRoles = [''admin'', ''manager''],
      migratePlaintextPasswords = False, migratePlaintextPasswordsOverwrite = False\<rparr>
     (JObj [(''roles'', JStr ''staff'')])
   \<and> canWrite JSON_parse \<lparr>w_enforceRoles = True, w_writeRoles = [''Admin'']\<rparr>
     (JObj [(''roles'', JArr [JStr ''ADMIN''])])"
proof -
  have r1: "map toLowerCase (parseRoles JSON_parse (js_and (JObj [(''roles'', JStr ''Staff, Manager'')])
              (js_get (JObj [(''roles'', JStr ''Staff, Manager'')]) ''roles''))) = [''staff'', ''manager'']"
    by code_simp
  have r2: "map toLowerCase (parseRoles JSON_parse (js_and (JObj [(''roles'', JStr ''staff'')])
              (js_get (JObj [(''roles'', JStr ''staff'')]) ''roles''))) = [''staff'']"
    by code_simp
  have r3: "map toLowerCase (widget_parseRoles JSON_parse (JObj [(''roles'', JArr [JStr ''ADMIN''])])) = [''admin'']"
    by code_simp
  have r4: "toLowerCase ''Admin'' = ''admin''"
    by code_simp
  have a: "hasWriteRole JSON_parse
     \<lparr>enforceRoles = True, writeRoles = [''admin'', ''manager''],
      migratePlaintextPasswords = False, migratePlaintextPasswordsOverwrite = False\<rparr>
     (JObj [(''roles'', JStr ''Staff, Manager'')])"
    using write_gating [where json = JSON_parse
        and cfg = "\<lparr>enforceRoles = True, writeRoles = [''admin'', ''manager''],
          migratePlaintextPasswords = False, migratePlaintextPasswordsOverwrite = False\<rparr>"
        and user = "JObj [(''roles'', JStr ''Staff, Manager'')]", THEN conjunct1, unfolded r1]
    by simp
  have b: "\<not> hasWriteRole JSON_parse
     \<lparr>enforceRoles = True, writeRoles = [''admin'', ''manager''],
      migratePlaintextPasswords = False, migratePlaintextPasswordsOverwrite = False\<rparr>
     (JObj [(''roles'', JStr ''staff'')])"
    using write_gating [where json = JSON_parse
        and cfg = "\<lparr>enforceRoles = True, writeRoles = [''admin'', ''manager''],
          migratePlaintextPasswords = False, migratePlaintextPasswordsOverwrite = False\<rparr>"
        and user = "JObj [(''roles'', JStr ''staff'')]", THEN conjunct1, unfolded r2]
    by simp
  have c: "canWrite JSON_parse \<lparr>w_enforceRoles = True, w_writeRoles = [''Admin'']\<rparr>
     (JObj [(''roles'', JArr [JStr ''ADMIN''])])"
    using write_gating [where json = JSON_parse
        and user = "JObj [(''roles'', JArr [JStr ''ADMIN''])]"
        and wcfg = "\<lparr>w_enforceRoles = True, w_writeRoles = [''Admin'']\<rparr>",
        THEN conjunct2, unfolded r3]
    by (simp add: r4)
  from a b c show ?thesis by simp
qed

section \<open>Key figures\<close>

lemma coalesce_sql_sum:
  "coalesce (sql_sum (map total_amount rows)) 0
     = sum_list (map (\<lambda>s. case total_amount s of None \<Rightarrow> 0 | Some a \<Rightarrow> a) rows)"
proof -
  have "sum_list (List.map_filter (\<lambda>v. v) (map total_amount rows))
          = sum_list (map (\<lambda>s. case total_amount s of None \<Rightarrow> 0 | Some a \<Rightarrow> a) rows)"
    by (induction rows) (auto simp: List.map_filter_simps split: option.splits)
  moreover have "coalesce (sql_sum col) 0 = sum_list (List.map_filter (\<lambda>v. v) col)" for col
    by (cases "List.map_filter (\<lambda>v. v) col") (simp_all add: coalesce_def sql_sum_def)
  ultimately show ?thesis by simp
qed

lemma js_div_count:
  "0 < n \<Longrightarrow> js_div round_double v (Fin (of_nat n)) =
     (case v of Fin x \<Rightarrow> round_double (x / of_nat n) | NaN \<Rightarrow> NaN | PosInf \<Rightarrow> PosInf | NegInf \<Rightarrow> NegInf)"
  by (cases v) simp_all

text \<open>
  Claim C7. For a resolved range, with the count of the sales in the range a number that a
  double holds exactly: the summary's revenue is the sum of the total amounts of the sales
  in the range as a double (0 when there is none), its sales count is the number of those
  sales, and its average ticket is the quotient of that revenue by the count as doubles
  divide when the count is positive, and 0 otherwise: the division is never made by a count
  of zero.
\<close>

theorem kpi_contract:
  assumes "rangeToSql (js_get (JObj q) ''from'') (js_get (JObj q) ''to'') = Some r"
    and "round_double (of_nat (length (filter (in_range datetime_of r) sales)))
          = Fin (of_nat (length (filter (in_range datetime_of r) sales)))"
  shows "dashboard_summary round_double datetime_of sales (JObj q) =
     (let rows = filter (in_range datetime_of r) sales;
          total = sum_list (map (\<lambda>s. case total_amount s of None \<Rightarrow> 0 | Some a \<Rightarrow> a) rows);
          n = length rows
      in SendSummary
           \<lparr>revenue = round_double total,
            salesCount = Fin (of_nat n),
            avgTicket =
              (if 0 < n
               then (case round_double total of
                       Fin x \<Rightarrow> round_double (x / of_nat n)
                     | NaN \<Rightarrow> NaN | PosInf \<Rightarrow> PosInf | NegInf \<Rightarrow> NegInf)
               else Fin 0)\<rparr>)
     \<and> (filter (in_range datetime_of r) sales = [] \<longrightarrow>
          dashboard_summary round_double datetime_of sales (JObj q)
            = SendSummary \<lparr>revenue = Fin 0, salesCount = Fin 0, avgTicket = Fin 0\<rparr>)"
proof -
  let ?rows = "filter (in_range datetime_of r) sales"
  let ?total = "sum_list (map (\<lambda>s. case total_amount s of None \<Rightarrow> 0 | Some a \<Rightarrow> a) ?rows)"
  have run: "dashboard_summary round_double datetime_of sales (JObj q) =
      SendSummary
        \<lparr>revenue = round_double ?total,
         salesCount = Fin (of_nat (length ?rows)),
         avgTicket = (if jsnum_truthy (Fin (of_nat (length ?rows)))
                      then js_div round_double (round_double ?total) (Fin (of_nat (length ?rows)))
                      else Fin 0)\<rparr>"
    using assms by (simp add: dashboard_summary_def js_and_def Let_def coalesce_sql_sum)
  have first: "dashboard_summary round_double datetime_of sales (JObj q) =
      SendSummary
        \<lparr>revenue = round_double ?total,
         salesCount = Fin (of_nat (length ?rows)),
         avgTicket =
           (if 0 < length ?rows
            then (case round_double ?total of
                    Fin x \<Rightarrow> round_double (x / of_nat (length ?rows))
                  | NaN \<Rightarrow> NaN | PosInf \<Rightarrow> PosInf | NegInf \<Rightarrow> NegInf)
            else Fin 0)\<rparr>"
  proof (cases "0 < length ?rows")
    case True
    then show ?thesis
      unfolding run by (simp add: js_div_count)
  next
    case False
    then show ?thesis
      unfolding run by simp
  qed
  have second: "dashboard_summary round_double datetime_of sales (JObj q)
            = SendSummary \<lparr>revenue = Fin 0, salesCount = Fin 0, avgTicket = Fin 0\<rparr>"
    if "?rows = []"
  proof -
    from that assms(2) have "round_double 0 = Fin 0" by simp
    with that show ?thesis unfolding first by simp
  qed
  from first second show ?thesis
    by (simp add: Let_def)
qed

theorem kpi_contract_witness:
  "dashboard_summary
     (\<lambda>x. if x = 100 / 3 then Fin (4691249611844267 / 140737488355328) else Fin x)
     (\<lambda>s. if s = ''2024-01-01 00:00:00'' then 0 else if s = ''2024-01-03 00:00:00'' then 48 else - 1)
     [\<lparr>id_sale = 1, total_amount = Some 50, last_updated = Some 12\<rparr>,
      \<lparr>id_sale = 2, total_amount = Some 30, last_updated = Some 33\<rparr>,
      \<lparr>id_sale = 3, total_amount = Some 20, last_updated = Some 40\<rparr>,
      \<lparr>id_sale = 4, total_amount = Some 999, last_updated = Some 48\<rparr>]
     (JObj [(''from'', JStr ''2024-01-01''), (''to'', JStr ''2024-01-02'')])
   = SendSummary \<lparr>revenue = Fin 100, salesCount = Fin 3,
                   avgTicket = Fin (4691249611844267 / 140737488355328)\<rparr>"
proof -
  let ?rd = "\<lambda>x :: rat. if x = 100 / 3 then Fin (4691249611844267 / 140737488355328) else Fin x"
  let ?dt = "\<lambda>s. if s = ''2024-01-01 00:00:00'' then 0 else if s = ''2024-01-03 00:00:00'' then (48 :: int) else - 1"
  let ?sales = "[\<lparr>id_sale = 1, total_amount = Some 50, last_updated = Some 12\<rparr>,
      \<lparr>id_sale = 2, total_amount = Some 30, last_updated = Some 33\<rparr>,
      \<lparr>id_sale = 3, total_amount = Some 20, last_updated = Some 40\<rparr>,
      \<lparr>id_sale = 4, total_amount = Some 999, last_updated = Some 48\<rparr>]"
  let ?range = "\<lparr>r_from = ''2024-01-01 00:00:00'', r_toExcl = ''2024-01-03 00:00:00''\<rparr>"
  have h: "rangeToSql (js_get (JObj [(''from'', JStr ''2024-01-01''), (''to'', JStr ''2024-01-02'')]) ''from'')
             (js_get (JObj [(''from'', JStr ''2024-01-01''), (''to'', JStr ''2024-01-02'')]) ''to'')
           = Some ?range"
    by code_simp
  have rows: "filter (in_range ?dt ?range) ?sales =
      [\<lparr>id_sale = 1, total_amount = Some 50, last_updated = Some 12\<rparr>,
       \<lparr>id_sale = 2, total_amount = Some 30, last_updated = Some 33\<rparr>,
       \<lparr>id_sale = 3, total_amount = Some 20, last_updated = Some 40\<rparr>]"
    by (simp add: in_range_def)
  have exact: "?rd (of_nat (length (filter (in_range ?dt ?range) ?sales)))
                = Fin (of_nat (length (filter (in_range ?dt ?range) ?sales)))"
    unfolding rows by simp
  show ?thesis
    using kpi_contract [where round_double = ?rd and datetime_of = ?dt and sales = ?sales
        and r = ?range, OF h exact, THEN conjunct1]
    unfolding rows by simp
qed

section \<open>Deleting an offer that does not exist\<close>

text \<open>
  Claim C10. When \<^verbatim>\<open>DELETE /offers/:id\<close> gets a well-formed id, read by \<^verbatim>\<open>Number\<close> as a number
  other than zero that is the id of no offer, and no statement fails, the handler replies
  404 after it has committed the deletion of the join rows of that id: when there was such a
  row, the state after the 404 is not the state before.
\<close>

theorem delete_offer_not_found_commits:
  assumes "idRaw \<noteq> []" and "list_all is_digit idRaw"
    and "round_double (of_nat (digits_val idRaw)) = Fin i" and "i \<noteq> 0"
    and "\<forall>step. \<not> fails step"
    and "\<forall>x \<in> set (product_offers db). of_nat (id_offer x) \<noteq> i"
  shows "delete_offer round_double fails db idRaw =
           (Sent (SendError 404 ''Not found''),
            db\<lparr>product_offers_products :=
                 filter (\<lambda>j. of_nat (op_offer_id j) \<noteq> i) (product_offers_products db)\<rparr>)
         \<and> ((\<exists>j \<in> set (product_offers_products db). of_nat (op_offer_id j) = i)
              \<longrightarrow> snd (delete_offer round_double fails db idRaw) \<noteq> db)"
proof -
  let ?js = "filter (\<lambda>j. of_nat (op_offer_id j) \<noteq> i) (product_offers_products db)"
  have none: "filter (\<lambda>x. of_nat (id_offer x) = i) (product_offers db) = []"
    using assms(6) by (simp add: filter_empty_conv)
  have keep: "filter (\<lambda>x. of_nat (id_offer x) \<noteq> i) (product_offers db) = product_offers db"
    using assms(6) by (simp add: filter_id_conv)
  have run: "delete_offer round_double fails db idRaw =
           (Sent (SendError 404 ''Not found''), db\<lparr>product_offers_products := ?js\<rparr>)"
    using assms(1-5) by (simp add: delete_offer_def Let_def none keep)
  have changed: "snd (delete_offer round_double fails db idRaw) \<noteq> db"
    if "\<exists>j \<in> set (product_offers_products db). of_nat (op_offer_id j) = i"
  proof -
    from that obtain j where j: "j \<in> set (product_offers_products db)" "of_nat (op_offer_id j) = i"
      by blast
    then have "j \<notin> set ?js" by simp
    with j(1) have "?js \<noteq> product_offers_products db" by metis
    then have "db\<lparr>product_offers_products := ?js\<rparr> \<noteq> db"
      by (metis offers_db.select_convs(2) offers_db.surjective offers_db.update_convs(2))
    then show ?thesis by (simp add: run)
  qed
  from run changed show ?thesis by blast
qed

theorem delete_offer_not_found_commits_witness:
  "delete_offer Fin (\<lambda>step. False)
     \<lparr>product_offers = [\<lparr>id_offer = 1, offer_name = ''Menu''\<rparr>],
      product_offers_products = [\<lparr>op_offer_id = 7, op_product_id = 3\<rparr>, \<lparr>op_offer_id = 1, op_product_id = 3\<rparr>]\<rparr>
     ''7''
   = (Sent (SendError 404 ''Not found''),
      \<lparr>product_offers = [\<lparr>id_offer = 1, offer_name = ''Menu''\<rparr>],
       product_offers_products = [\<lparr>op_offer_id = 1, op_product_id = 3\<rparr>]\<rparr>)
   \<and> snd (delete_offer Fin (\<lambda>step. False)
     \<lparr>product_offers = [\<lparr>id_offer = 1, offer_name = ''Menu''\<rparr>],
      product_offers_products = [\<lparr>op_offer_id = 7, op_product_id = 3\<rparr>, \<lparr>op_offer_id = 1, op_product_id = 3\<rparr>]\<rparr>
     ''7'')
     \<noteq> \<lparr>product_offers = [\<lparr>id_offer = 1, offer_name = ''Menu''\<rparr>],
      product_offers_products = [\<lparr>op_offer_id = 7, op_product_id = 3\<rparr>, \<lparr>op_offer_id = 1, op_product_id = 3\<rparr>]\<rparr>"
proof -
  have d: "digits_val ''7'' = 7" by code_simp
  have g: "list_all is_digit ''7''" by code_simp
  have n: "Fin (of_nat (digits_val ''7'')) = Fin 7" by (simp add: d)
  show ?thesis
    using delete_offer_not_found_commits [where idRaw = "''7''" and fails = "\<lambda>step. False"
        and round_double = Fin and i = 7
        and db = "\<lparr>product_offers = [\<lparr>id_offer = 1, offer_name = ''Menu''\<rparr>],
      product_offers_products = [\<lparr>op_offer_id = 7, op_product_id = 3\<rparr>, \<lparr>op_offer_id = 1, op_product_id = 3\<rparr>]\<rparr>",
        OF _ g n]
    by simp
qed

text \<open>An id above \<open>2^53\<close> is rounded by \<^verbatim>\<open>Number\<close> before it is sent: with the double nearest to
  9007199254740993, which is 9007199254740992, the request deletes the offer
  9007199254740992 and replies that it did.\<close>

lemma delete_offer_rounded_id:
  "delete_offer (\<lambda>x. if x = 9007199254740993 then Fin 9007199254740992 else Fin x) (\<lambda>step. False)
     \<lparr>product_offers = [\<lparr>id_offer = 9007199254740992, offer_name = ''Menu''\<rparr>],
      product_offers_products = []\<rparr>
     ''9007199254740993''
   = (Sent SendOk, \<lparr>product_offers = [], product_offers_products = []\<rparr>)"
proof -
  have d: "digits_val ''9007199254740993'' = 9007199254740993"
    by (simp add: digits_val_def digit_val_def)
  have g: "list_all is_digit ''9007199254740993''"
    by code_simp
  show ?thesis
    unfolding delete_offer_def Let_def d using g by simp
qed

section \<open>Verification of the password\<close>

lemma looksHashed_js_or [simp]: "passwordLooksHashed (js_or x (JStr [])) = passwordLooksHashed x"
  by (cases "js_truthy x") (simp_all add: js_or_def passwordLooksHashed_def)

lemma looksHashed_truthy: "passwordLooksHashed x \<Longrightarrow> js_truthy x"
  by (cases "js_truthy x") (simp_all add: passwordLooksHashed_def)

lemma js_String_js_or: "passwordLooksHashed x \<Longrightarrow> js_String (js_or x (JStr [])) = js_String x"
  by (simp add: js_or_def looksHashed_truthy)

lemma js_or_eq_JStr: "pw \<noteq> [] \<Longrightarrow> (js_or x (JStr []) = JStr pw) = (x = JStr pw)"
  by (cases "js_truthy x") (auto simp: js_or_def)

lemma login_verify_eq:
  assumes "pw \<noteq> []"
  shows "login_verify env hasCol user pw =
     (if hasCol \<and> passwordLooksHashed (password_hash user)
      then bcrypt_compare env pw (js_String (password_hash user)) = Some True
      else if passwordLooksHashed (password user)
      then bcrypt_compare env pw (js_String (password user)) = Some True
      else password user = JStr pw)"
proof -
  have nohash: "\<not> passwordLooksHashed (JStr [])"
    by (simp add: passwordLooksHashed_def)
  have opt: "(case c of None \<Rightarrow> False | Some b \<Rightarrow> b) = (c = Some True)" for c :: "bool option"
    by (cases c) auto
  show ?thesis
    using assms
    by (simp add: login_verify_def stored_of_def storedHash_of_def Let_def nohash opt
        js_String_js_or js_or_eq_JStr)
qed

lemma login_reaches_user:
  assumes "js_get (js_or body (JObj [])) ''username'' = JStr uname"
    and "js_trim uname \<noteq> []"
    and "js_get (js_or body (JObj [])) ''password'' = JStr pw"
    and "pw \<noteq> []"
    and "\<not> query_fails env SelectUser"
    and "getUserByUsername env hasCol db (js_trim uname) = Some user"
    and "js_String (is_active user) \<noteq> ''0''"
  shows "login cfg env hasCol db body = login_user cfg env hasCol db user pw"
  using assms by (simp add: login_def Let_def)

lemma login_user_reply_401:
  "(fst (login_user cfg env hasCol db user pw) = Sent (SendError 401 ''Invalid credentials''))
     = (\<not> login_verify env hasCol user pw)"
  by (simp add: login_user_def Let_def split: option.splits)

text \<open>
  Claim C1. For a login request that reaches the verification (a user name and a password
  were given, the user was read and is active): when the column \<^verbatim>\<open>password_hash\<close> exists and
  its value looks hashed, the password matches exactly when \<^verbatim>\<open>bcrypt.compare\<close> against that
  value returns true; otherwise, when the legacy \<^verbatim>\<open>password\<close> looks hashed, exactly when
  \<^verbatim>\<open>bcrypt.compare\<close> against it returns true; otherwise exactly when the legacy value is the
  given password. A failure of \<^verbatim>\<open>bcrypt.compare\<close> is no match: the handler then replies 401
  and no exception escapes.
\<close>

theorem credential_verification_precedence:
  assumes "js_get (js_or body (JObj [])) ''username'' = JStr uname"
    and "js_trim uname \<noteq> []"
    and "js_get (js_or body (JObj [])) ''password'' = JStr pw"
    and "pw \<noteq> []"
    and "\<not> query_fails env SelectUser"
    and "getUserByUsername env hasCol db (js_trim uname) = Some user"
    and "js_String (is_active user) \<noteq> ''0''"
  shows "login_verify env hasCol user pw =
           (if hasCol \<and> passwordLooksHashed (password_hash user)
            then bcrypt_compare env pw (js_String (password_hash user)) = Some True
            else if passwordLooksHashed (password user)
            then bcrypt_compare env pw (js_String (password user)) = Some True
            else password user = JStr pw)
         \<and> (if login_verify env hasCol user pw
            then fst (login cfg env hasCol db body) \<noteq> Sent (SendError 401 ''Invalid credentials'')
            else login cfg env hasCol db body = (Sent (SendError 401 ''Invalid credentials''), db))"
proof -
  have run: "login cfg env hasCol db body = login_user cfg env hasCol db user pw"
    using assms by (rule login_reaches_user)
  have no: "login_user cfg env hasCol db user pw = (Sent (SendError 401 ''Invalid credentials''), db)"
    if "\<not> login_verify env hasCol user pw"
    using that by (simp add: login_user_def)
  show ?thesis
    using login_verify_eq [OF assms(4), of env hasCol user] login_user_reply_401 [of cfg env hasCol db user pw] no
    by (simp add: run)
qed


theorem credential_verification_precedence_witness:
  "\<not> login_verify example_env True example_user_bad_hash ''secret''
   \<and> login example_cfg example_env True [example_user, example_user_bad_hash]
         (example_body ''bob'' ''secret'')
       = (Sent (SendError 401 ''Invalid credentials''), [example_user, example_user_bad_hash])"
proof -
  have h1: "js_get (js_or (example_body ''bob'' ''secret'') (JObj [])) ''username'' = JStr ''bob''"
    by code_simp
  have h2: "js_trim ''bob'' \<noteq> []"
    by code_simp
  have h3: "js_get (js_or (example_body ''bob'' ''secret'') (JObj [])) ''password'' = JStr ''secret''"
    by code_simp
  have h4: "''secret'' \<noteq> []"
    by simp
  have h5: "\<not> query_fails example_env SelectUser"
    by (simp add: example_env_def)
  have h6: "getUserByUsername example_env True [example_user, example_user_bad_hash] (js_trim ''bob'')
              = Some example_user_bad_hash"
    by code_simp
  have h7: "js_String (is_active example_user_bad_hash) \<noteq> ''0''"
    by code_simp
  have e1: "passwordLooksHashed (password_hash example_user_bad_hash)"
    by code_simp
  have e2: "bcrypt_compare example_env ''secret'' (js_String (password_hash example_user_bad_hash)) = None"
    by code_simp
  show ?thesis
    using credential_verification_precedence [OF h1 h2 h3 h4 h5 h6 h7, of example_cfg] e1 e2
    by simp
qed

section \<open>A failed upgrade of the stored password\<close>

text \<open>Claim C3 as stated fails: the verification succeeds, the write of \<^verbatim>\<open>password_hash\<close> is
  attempted and fails, and the request ends with the exception, answered 500 without a
  token.\<close>

theorem best_effort_upgrade_counterexample:
  "login_verify example_env_upgrade_fails True example_user ''secret''
   \<and> upgrade_write example_cfg True example_user = Some UpdatePasswordHash
   \<and> query_fails example_env_upgrade_fails UpdatePasswordHash
   \<and> login example_cfg example_env_upgrade_fails True [example_user] (example_body ''ana'' ''secret'')
       = (Threw, [example_user])
   \<and> errorHandler Threw = SendError 500 ''Server error''"
  by code_simp

lemma login_migrate_None:
  "(login_migrate cfg env hasCol user pw db = None)
     = (\<exists>q. upgrade_write cfg hasCol user = Some q
            \<and> (bcrypt_hash env pw 12 = None \<or> query_fails env q))"
  by (auto simp: login_migrate_def upgrade_write_def Let_def split: option.splits)

lemma login_user_token:
  assumes "login_verify env hasCol user pw"
  shows "(\<exists>token. fst (login_user cfg env hasCol db user pw) = Sent (SendLogin token (publicUser user)))
     = (login_migrate cfg env hasCol user pw db \<noteq> None
        \<and> \<not> query_fails env UpdateLastLogin
        \<and> jwt_sign env (id_user user) (username user) \<noteq> None)"
  using assms by (auto simp: login_user_def Let_def split: option.splits)

text \<open>
  Claim C3, amended. For a login request whose verification succeeds: when the upgrade is
  attempted and its hashing or its write fails, the exception escapes the handler, the table
  is as before and the reply is 500 without a token. A token and the user are sent exactly
  when every step after the verification succeeds: the hashing and the write of the upgrade
  when one is attempted, the update of \<^verbatim>\<open>last_login\<close>, and the signing of the token.
\<close>

theorem upgrade_failure_fails_login:
  assumes "js_get (js_or body (JObj [])) ''username'' = JStr uname"
    and "js_trim uname \<noteq> []"
    and "js_get (js_or body (JObj [])) ''password'' = JStr pw"
    and "pw \<noteq> []"
    and "\<not> query_fails env SelectUser"
    and "getUserByUsername env hasCol db (js_trim uname) = Some user"
    and "js_String (is_active user) \<noteq> ''0''"
    and "login_verify env hasCol user pw"
  shows "(\<forall>q. upgrade_write cfg hasCol user = Some q
              \<and> (bcrypt_hash env pw 12 = None \<or> query_fails env q)
            \<longrightarrow> login cfg env hasCol db body = (Threw, db)
                \<and> errorHandler (fst (login cfg env hasCol db body)) = SendError 500 ''Server error'')
         \<and> ((\<exists>token. fst (login cfg env hasCol db body) = Sent (SendLogin token (publicUser user)))
              = ((\<forall>q. upgrade_write cfg hasCol user = Some q
                       \<longrightarrow> bcrypt_hash env pw 12 \<noteq> None \<and> \<not> query_fails env q)
                 \<and> \<not> query_fails env UpdateLastLogin
                 \<and> jwt_sign env (id_user user) (username user) \<noteq> None))"
proof -
  have run: "login cfg env hasCol db body = login_user cfg env hasCol db user pw"
    using assms(1-7) by (rule login_reaches_user)
  have fail: "login_user cfg env hasCol db user pw = (Threw, db)"
    if "upgrade_write cfg hasCol user = Some q" and "bcrypt_hash env pw 12 = None \<or> query_fails env q"
    for q
  proof -
    from that have "login_migrate cfg env hasCol user pw db = None"
      unfolding login_migrate_None by blast
    with assms(8) show ?thesis by (simp add: login_user_def)
  qed
  have ok: "(login_migrate cfg env hasCol user pw db \<noteq> None)
     = (\<forall>q. upgrade_write cfg hasCol user = Some q
           \<longrightarrow> bcrypt_hash env pw 12 \<noteq> None \<and> \<not> query_fails env q)"
    unfolding login_migrate_None by auto
  have first: "\<forall>q. upgrade_write cfg hasCol user = Some q
              \<and> (bcrypt_hash env pw 12 = None \<or> query_fails env q)
            \<longrightarrow> login_user cfg env hasCol db user pw = (Threw, db)
                \<and> errorHandler (fst (login_user cfg env hasCol db user pw)) = SendError 500 ''Server error''"
    using fail by auto
  have second: "(\<exists>token. fst (login_user cfg env hasCol db user pw) = Sent (SendLogin token (publicUser user)))
              = ((\<forall>q. upgrade_write cfg hasCol user = Some q
                       \<longrightarrow> bcrypt_hash env pw 12 \<noteq> None \<and> \<not> query_fails env q)
                 \<and> \<not> query_fails env UpdateLastLogin
                 \<and> jwt_sign env (id_user user) (username user) \<noteq> None)"
    unfolding login_user_token [OF assms(8)] ok ..
  from first second show ?thesis
    unfolding run by (rule conjI)
qed

theorem upgrade_failure_fails_login_witness:
  "login example_cfg example_env_upgrade_fails True [example_user] (example_body ''ana'' ''secret'')
     = (Threw, [example_user])
   \<and> errorHandler (fst (login example_cfg example_env_upgrade_fails True [example_user]
                          (example_body ''ana'' ''secret'')))
     = SendError 500 ''Server error''"
proof -
  have h1: "js_get (js_or (example_body ''ana'' ''secret'') (JObj [])) ''username'' = JStr ''ana''"
    by code_simp
  have h2: "js_trim ''ana'' \<noteq> []"
    by code_simp
  have h3: "js_get (js_or (example_body ''ana'' ''secret'') (JObj [])) ''password'' = JStr ''secret''"
    by code_simp
  have h4: "''secret'' \<noteq> []"
    by simp
  have h5: "\<not> query_fails example_env_upgrade_fails SelectUser"
    by code_simp
  have h6: "getUserByUsername example_env_upgrade_fails True [example_user] (js_trim ''ana'')
              = Some example_user"
    by code_simp
  have h7: "js_String (is_active example_user) \<noteq> ''0''"
    by code_simp
  have h8: "login_verify example_env_upgrade_fails True example_user ''secret''"
    by code_simp
  have w: "upgrade_write example_cfg True example_user = Some UpdatePasswordHash"
    by code_simp
  have f: "query_fails example_env_upgrade_fails UpdatePasswordHash"
    by code_simp
  show ?thesis
    using upgrade_failure_fails_login [OF h1 h2 h3 h4 h5 h6 h7 h8, of example_cfg] w f
    by blast
qed

section \<open>Safety of the upgrade\<close>














section \<open>Encodings of the roles\<close>

text \<open>Claim C5 as stated fails: the comma-separated string \<^verbatim>\<open>"admin,manager"\<close> is parsed
  to both of its names, not to the roles of the array \<^verbatim>\<open>["admin"]\<close>.\<close>

theorem role_encodings_counterexample:
  "parseRoles JSON_parse (JArr [JStr ''admin'']) = [''admin'']
   \<and> parseRoles JSON_parse (JStr ''admin,manager'') = [''admin'', ''manager'']
   \<and> set (parseRoles JSON_parse (JStr ''admin,manager'')) \<noteq> {''admin''}"
proof -
  have a: "parseRoles JSON_parse (JArr [JStr ''admin'']) = [''admin'']"
    by code_simp
  have b: "parseRoles JSON_parse (JStr ''admin,manager'') = [''admin'', ''manager'']"
    by code_simp
  from a b show ?thesis by auto
qed

text \<open>
  Claim C5, amended. The array \<^verbatim>\<open>["admin"]\<close>, the JSON object string \<^verbatim>\<open>{"admin":true}\<close> and the
  string \<^verbatim>\<open>"admin"\<close> are each parsed to the one role \<^verbatim>\<open>admin\<close>; the comma-separated string
  \<^verbatim>\<open>"admin,manager"\<close> is parsed to the two roles \<^verbatim>\<open>admin\<close> and \<^verbatim>\<open>manager\<close>. The server and the
  widget agree on these inputs.
\<close>

theorem role_encodings:
  "parseRoles JSON_parse (JArr [JStr ''admin'']) = [''admin'']
   \<and> parseRoles JSON_parse (JStr ''{\"admin\":true}'') = [''admin'']
   \<and> parseRoles JSON_parse (JStr ''admin'') = [''admin'']
   \<and> parseRoles JSON_parse (JStr ''admin,manager'') = [''admin'', ''manager'']
   \<and> widget_parseRoles JSON_parse (JObj [(''roles'', JArr [JStr ''admin''])]) = [''admin'']
   \<and> widget_parseRoles JSON_parse (JObj [(''roles'', JStr ''{\"admin\":true}'')]) = [''admin'']
   \<and> widget_parseRoles JSON_parse (JObj [(''roles'', JStr ''admin,manager'')]) = [''admin'', ''manager'']"
proof -
  have a: "parseRoles JSON_parse (JArr [JStr ''admin'']) = [''admin'']"
    by code_simp
  have b: "parseRoles JSON_parse (JStr ''{\"admin\":true}'') = [''admin'']"
    by code_simp
  have c: "parseRoles JSON_parse (JStr ''admin'') = [''admin'']"
    by code_simp
  have d: "parseRoles JSON_parse (JStr ''admin,manager'') = [''admin'', ''manager'']"
    by code_simp
  have e: "widget_parseRoles JSON_parse (JObj [(''roles'', JArr [JStr ''admin''])]) = [''admin'']"
    by code_simp
  have f: "widget_parseRoles JSON_parse (JObj [(''roles'', JStr ''{\"admin\":true}'')]) = [''admin'']"
    by code_simp
  have g: "widget_parseRoles JSON_parse (JObj [(''roles'', JStr ''admin,manager'')]) = [''admin'', ''manager'']"
    by code_simp
  from a b c d e f g show ?thesis by (intro conjI)
qed

section \<open>The two role parsers\<close>

text \<open>Claim C9 as stated fails on a number: the widget returns no role for the roles value
  5, the server returns the role \<^verbatim>\<open>"5"\<close>.\<close>

theorem role_parsers_counterexample:
  "widget_parseRoles JSON_parse (JObj [(''roles'', JNum 5)]) = []
   \<and> parseRoles JSON_parse (JNum 5) = [''5'']
   \<and> widget_parseRoles JSON_parse (JObj [(''roles'', JNum 5)]) \<noteq> parseRoles JSON_parse (JNum 5)"
proof -
  have a: "widget_parseRoles JSON_parse (JObj [(''roles'', JNum 5)]) = []"
    by code_simp
  have b: "parseRoles JSON_parse (JNum 5) = [''5'']"
    by code_simp
  from a b show ?thesis by simp
qed

text \<open>A string is another place where the two differ: the server trims the string before
  \<^verbatim>\<open>JSON.parse\<close>, the widget does not, and a vertical tab is a blank for \<^verbatim>\<open>trim\<close> but not for
  JSON.\<close>

lemma role_parsers_differ_after_vertical_tab:
  "parseRoles JSON_parse (JStr [CHR 0x0B, CHR ''['', CHR 0x22, CHR ''a'', CHR 0x22, CHR '']'']) = [''a'']
   \<and> widget_parseRoles JSON_parse
         (JObj [(''roles'', JStr [CHR 0x0B, CHR ''['', CHR 0x22, CHR ''a'', CHR 0x22, CHR '']''])])
       = [[CHR ''['', CHR 0x22, CHR ''a'', CHR 0x22, CHR '']'']]"
proof -
  have a: "parseRoles JSON_parse (JStr [CHR 0x0B, CHR ''['', CHR 0x22, CHR ''a'', CHR 0x22, CHR '']'']) = [''a'']"
    by code_simp
  have b: "widget_parseRoles JSON_parse
         (JObj [(''roles'', JStr [CHR 0x0B, CHR ''['', CHR 0x22, CHR ''a'', CHR 0x22, CHR '']''])])
       = [[CHR ''['', CHR 0x22, CHR ''a'', CHR 0x22, CHR '']'']]"
    by code_simp
  from a b show ?thesis by (rule conjI)
qed

lemma is_ws_is_sep: "is_ws c \<Longrightarrow> is_sep c"
  by (simp add: is_sep_def)

lemma dropWhile_none: "\<forall>c \<in> set p. \<not> P c \<Longrightarrow> dropWhile P p = p"
  by (cases p) auto

lemma js_trim_no_ws: "\<forall>c \<in> set p. \<not> is_ws c \<Longrightarrow> js_trim p = p"
  by (simp add: js_trim_def dropWhile_none)

lemma split_seps_pieces:
  "\<forall>c \<in> set cur. \<not> is_sep c \<Longrightarrow> \<forall>p \<in> set (split_seps cur s). \<forall>c \<in> set p. \<not> is_sep c"
proof (induction s arbitrary: cur)
  case Nil
  then show ?case by simp
next
  case (Cons c cs)
  have e: "\<forall>p \<in> set (split_seps [] cs). \<forall>c \<in> set p. \<not> is_sep c"
    by (rule Cons.IH) simp
  have k: "\<forall>p \<in> set (split_seps cur cs). \<forall>c \<in> set p. \<not> is_sep c"
    by (rule Cons.IH) (rule Cons.prems)
  have ek: "\<forall>p \<in> set (cur # split_seps [] cs). \<forall>c \<in> set p. \<not> is_sep c"
    using e Cons.prems by simp
  show ?case
  proof (cases "is_sep c")
    case False
    have "\<forall>p \<in> set (split_seps (cur @ [c]) cs). \<forall>c \<in> set p. \<not> is_sep c"
      by (rule Cons.IH) (use False Cons.prems in simp)
    with False show ?thesis by simp
  next
    case True
    show ?thesis
    proof (cases cs)
      case Nil
      with True ek show ?thesis by simp
    next
      case (Cons c' cs')
      have "split_seps cur (c # cs) = (if is_sep c' then split_seps cur cs else cur # split_seps [] cs)"
        using True Cons by simp
      with k ek show ?thesis by (cases "is_sep c'") (simp_all only: if_True if_False)
    qed
  qed
qed

lemma filter_split_seps: "filter (\<lambda>x. x \<noteq> []) (split_seps cur s) = words_of cur s"
proof (induction s arbitrary: cur)
  case Nil
  then show ?case by simp
next
  case (Cons c cs)
  show ?case
  proof (cases "is_sep c")
    case False
    then show ?thesis by (simp add: Cons.IH)
  next
    case True
    show ?thesis
    proof (cases cs)
      case Nil
      with True show ?thesis by simp
    next
      case (Cons c' cs')
      show ?thesis
      proof (cases "is_sep c'")
        case False
        with True Cons show ?thesis
          using Cons.IH [of "[]"] by simp
      next
        case sep: True
        have "filter (\<lambda>x. x \<noteq> []) (split_seps cur (c # cs)) = filter (\<lambda>x. x \<noteq> []) (split_seps cur cs)"
          using True Cons sep by simp
        also have "\<dots> = words_of cur cs"
          by (rule Cons.IH)
        also have "\<dots> = words_of cur (c # cs)"
          using True Cons sep by simp
        finally show ?thesis .
      qed
    qed
  qed
qed

lemma trim_nonempty_split: "trim_nonempty (split_seps [] s) = words_of [] s"
proof -
  have "\<forall>p \<in> set (split_seps [] s). \<forall>c \<in> set p. \<not> is_sep c"
    by (rule split_seps_pieces) simp
  then have "\<forall>p \<in> set (split_seps [] s). js_trim p = p"
    using is_ws_is_sep js_trim_no_ws by blast
  then have "map js_trim (split_seps [] s) = split_seps [] s"
    by (simp add: map_idI)
  then show ?thesis
    by (simp add: trim_nonempty_def filter_split_seps)
qed

lemma words_of_seps: "\<forall>c \<in> set w. is_sep c \<Longrightarrow> words_of cur w = (if cur = [] then [] else [cur])"
  by (induction w arbitrary: cur) auto

lemma words_of_append_seps: "\<forall>c \<in> set w. is_sep c \<Longrightarrow> words_of cur (s @ w) = words_of cur s"
  by (induction s arbitrary: cur) (auto simp: words_of_seps)

lemma words_of_dropWhile: "words_of [] (dropWhile is_ws s) = words_of [] s"
  by (induction s) (auto simp: is_ws_is_sep)

lemma words_of_trim: "words_of [] (js_trim s) = words_of [] s"
proof -
  let ?t = "dropWhile is_ws s"
  let ?w = "rev (takeWhile is_ws (rev ?t))"
  have "js_trim s @ ?w = rev (takeWhile is_ws (rev ?t) @ dropWhile is_ws (rev ?t))"
    unfolding js_trim_def rev_append ..
  also have "\<dots> = ?t"
    by (simp only: takeWhile_dropWhile_id rev_rev_ident)
  finally have split: "js_trim s @ ?w = ?t" .
  have "\<forall>c \<in> set ?w. is_sep c"
    using set_takeWhileD is_ws_is_sep by fastforce
  then have "words_of [] (js_trim s @ ?w) = words_of [] (js_trim s)"
    by (rule words_of_append_seps)
  then show ?thesis
    by (simp add: split words_of_dropWhile)
qed

lemma trim_nonempty_split_trim:
  "trim_nonempty (split_seps [] (js_trim s)) = trim_nonempty (split_seps [] s)"
  by (simp add: trim_nonempty_split words_of_trim)

lemma trim_empty_no_words: "js_trim s = [] \<Longrightarrow> trim_nonempty (split_seps [] s) = []"
  using words_of_trim [of s] by (simp add: trim_nonempty_split)

lemma parseRoles_string:
  assumes "json (js_trim s) = json s" and "js_trim s = [] \<longrightarrow> json s = None"
    and that: "js_truthy user" "js_get user ''roles'' = JStr s"
  shows "widget_parseRoles json user = parseRoles json (JStr s)"
proof (cases "s = []")
  case True
  with that show ?thesis
    by (simp add: widget_parseRoles_def parseRoles_def js_trim_def)
next
  case False
  show ?thesis
  proof (cases "js_trim s = []")
    case True
    with assms(2) have "json s = None" by simp
    with that False True show ?thesis
      by (simp add: widget_parseRoles_def parseRoles_def safeJsonParse_def trim_empty_no_words)
  next
    case nonempty: False
    show ?thesis
    proof (cases "json s")
      case None
      with that False nonempty assms(1) show ?thesis
        by (simp add: widget_parseRoles_def parseRoles_def safeJsonParse_def trim_nonempty_split_trim)
    next
      case (Some j)
      with that False nonempty assms(1) show ?thesis
        by (simp add: widget_parseRoles_def parseRoles_def safeJsonParse_def trim_nonempty_split_trim)
    qed
  qed
qed

text \<open>
  Claim C9, amended. For a user whose roles value is \<^verbatim>\<open>null\<close>, \<^verbatim>\<open>undefined\<close>, an array, a plain
  object, or a string on which \<^verbatim>\<open>JSON.parse\<close> gives the same result before and after trimming
  (and throws when the string is blank), the widget's \<^verbatim>\<open>parseRoles\<close> returns the same sequence
  of roles as the server's. For a number or a boolean the widget returns no role.
\<close>

theorem role_parsers_agree:
  assumes "js_truthy user" and "js_get user ''roles'' = v"
  shows "(js_typeof v \<noteq> TBoolean \<and> js_typeof v \<noteq> TNumber
          \<and> (\<forall>s. v = JStr s \<longrightarrow> json (js_trim s) = json s \<and> (js_trim s = [] \<longrightarrow> json s = None))
          \<longrightarrow> widget_parseRoles json user = parseRoles json v)
         \<and> (js_typeof v = TBoolean \<or> js_typeof v = TNumber \<longrightarrow> widget_parseRoles json user = [])"
proof (cases v)
  case (JStr s)
  show ?thesis
    using parseRoles_string [of json s user] assms by (auto simp: JStr)
qed (use assms in \<open>simp_all add: widget_parseRoles_def parseRoles_def Let_def\<close>)

theorem role_parsers_agree_witness:
  "widget_parseRoles JSON_parse (JObj [(''roles'', JStr '' admin, manager '')])
     = parseRoles JSON_parse (JStr '' admin, manager '')
   \<and> widget_parseRoles JSON_parse (JObj [(''roles'', JBool True)]) = []"
proof -
  have t: "js_truthy (JObj [(''roles'', JStr '' admin, manager '')])"
    "js_truthy (JObj [(''roles'', JBool True)])"
    by simp_all
  have g: "js_get (JObj [(''roles'', JStr '' admin, manager '')]) ''roles'' = JStr '' admin, manager ''"
    "js_get (JObj [(''roles'', JBool True)]) ''roles'' = JBool True"
    by simp_all
  have j: "JSON_parse (js_trim '' admin, manager '') = JSON_parse '' admin, manager ''"
    by code_simp
  have n: "js_trim '' admin, manager '' \<noteq> []"
    by code_simp
  show ?thesis
    using role_parsers_agree [OF t(1) g(1), of JSON_parse] role_parsers_agree [OF t(2) g(2), of JSON_parse] j n
    by simp
qed

section \<open>The day after a date\<close>

text \<open>The year of a day number is the year whose first day is on or before it and whose
  successor's first day is after it; a date of the calendar is read back from its day
  number, and the day number after it is that of the next date of the calendar.\<close>

lemma int_div_bounds:
  fixes x k :: int
  assumes "0 < k"
  shows "k * (x div k) \<le> x" and "x < k * (x div k) + k"
proof -
  have "x = k * (x div k) + x mod k" by simp
  moreover have "0 \<le> x mod k" "x mod k < k" using assms by simp_all
  ultimately show "k * (x div k) \<le> x" and "x < k * (x div k) + k" by linarith+
qed

lemma DayFromYear_linear:
  "146097 * (y - 1970) - 600 \<le> 400 * DayFromYear y"
  "400 * DayFromYear y \<le> 146097 * (y - 1970) + 600"
proof -
  define a where "a = (y - 1969) div 4"
  define b where "b = (y - 1901) div 100"
  define c where "c = (y - 1601) div 400"
  have ab: "4 * a \<le> y - 1969" "y - 1969 \<le> 4 * a + 3"
    using int_div_bounds [where k = 4 and x = "y - 1969"] by (simp_all add: a_def)
  have bb: "100 * b \<le> y - 1901" "y - 1901 \<le> 100 * b + 99"
    using int_div_bounds [where k = 100 and x = "y - 1901"] by (simp_all add: b_def)
  have cb: "400 * c \<le> y - 1601" "y - 1601 \<le> 400 * c + 399"
    using int_div_bounds [where k = 400 and x = "y - 1601"] by (simp_all add: c_def)
  have d: "DayFromYear y = 365 * (y - 1970) + a - b + c"
    by (simp add: DayFromYear_def a_def b_def c_def)
  show "146097 * (y - 1970) - 600 \<le> 400 * DayFromYear y"
    unfolding d using ab bb cb by simp
  show "400 * DayFromYear y \<le> 146097 * (y - 1970) + 600"
    unfolding d using ab bb cb by simp
qed

lemma DaysInYear_pos: "365 \<le> DaysInYear y"
  by (simp add: DaysInYear_def)


lemma YearFromDay_unique:
  assumes "DayFromYear y \<le> t" and "t < DayFromYear (y + 1)"
  shows "YearFromDay t = y"
proof -
  have mono: "DayFromYear (y + 1) < DayFromYear (y + 1 + 1)"
    using DayFromYear_linear(2) [of "y + 1"] DayFromYear_linear(1) [of "y + 1 + 1"] by simp
  define q where "q = (400 * t) div 146097"
  have qb: "146097 * q \<le> 400 * t" "400 * t < 146097 * q + 146097"
    using int_div_bounds [where k = 146097 and x = "400 * t"] by (simp_all add: q_def)
  have up: "q \<le> y - 1969"
    using qb(1) assms(2) DayFromYear_linear(2) [of "y + 1"] by simp
  have lo: "y - 1971 \<le> q"
    using qb(2) assms(1) DayFromYear_linear(1) [of y] by simp
  have yfd: "YearFromDay t =
      (if DayFromYear (1970 + q + 1) \<le> t then 1970 + q + 1
       else if DayFromYear (1970 + q) \<le> t then 1970 + q
       else 1970 + q - 1)"
    by (simp add: YearFromDay_def q_def Let_def)
  from up lo consider "1970 + q = y + 1" | "1970 + q = y" | "1970 + q = y - 1" by linarith
  then show ?thesis
  proof cases
    case 1
    have "\<not> DayFromYear (y + 1 + 1) \<le> t"
      using assms(2) mono by linarith
    moreover have "\<not> DayFromYear (y + 1) \<le> t"
      using assms(2) by linarith
    ultimately show ?thesis
      unfolding yfd 1 by simp
  next
    case 2
    have "\<not> DayFromYear (y + 1) \<le> t"
      using assms(2) by linarith
    then show ?thesis
      unfolding yfd 2 using assms(1) by simp
  next
    case 3
    have "DayFromYear (y - 1 + 1) \<le> t"
      using assms(1) by simp
    then show ?thesis
      unfolding yfd 3 by simp
  qed
qed

lemma div_succ:
  fixes x k :: int
  assumes "1 < k"
  shows "(x + 1) div k = x div k + (if (x + 1) mod k = 0 then 1 else 0)"
proof -
  define q where "q = x div k"
  define r where "r = x mod k"
  have x: "x = k * q + r" and r: "0 \<le> r" "r < k"
    using assms by (simp_all add: q_def r_def)
  show ?thesis
  proof (cases "r + 1 = k")
    case True
    then have e: "x + 1 = k * (q + 1) + 0"
      using x by (simp add: algebra_simps)
    have "(x + 1) div k = q + 1"
      using e assms by (intro int_div_pos_eq [where r = 0]) simp_all
    moreover have "(x + 1) mod k = 0"
      using e assms by (intro int_mod_pos_eq [where q = "q + 1"]) simp_all
    ultimately show ?thesis by (simp add: q_def)
  next
    case False
    then have lt: "r + 1 < k" using r by simp
    have e: "x + 1 = k * q + (r + 1)"
      using x by simp
    have "(x + 1) div k = q"
      using e r lt by (intro int_div_pos_eq [where r = "r + 1"]) simp_all
    moreover have "(x + 1) mod k = r + 1"
      using e r lt by (intro int_mod_pos_eq [where q = q]) simp_all
    ultimately show ?thesis using r by (simp add: q_def)
  qed
qed

lemma DayFromYear_Suc: "DayFromYear (y + 1) = DayFromYear y + DaysInYear y"
proof -
  have m4: "(y - 1968) mod 4 = y mod 4"
  proof -
    have "y - 1968 = y + 4 * (- 492)" by simp
    then show ?thesis by (simp only: mod_mult_self2)
  qed
  have m100: "(y - 1900) mod 100 = y mod 100"
  proof -
    have "y - 1900 = y + 100 * (- 19)" by simp
    then show ?thesis by (simp only: mod_mult_self2)
  qed
  have m400: "(y - 1600) mod 400 = y mod 400"
  proof -
    have "y - 1600 = y + 400 * (- 4)" by simp
    then show ?thesis by (simp only: mod_mult_self2)
  qed
  have a: "(y - 1968) div 4 = (y - 1969) div 4 + (if y mod 4 = 0 then 1 else 0)"
    using div_succ [of 4 "y - 1969"] by (simp add: m4)
  have b: "(y - 1900) div 100 = (y - 1901) div 100 + (if y mod 100 = 0 then 1 else 0)"
    using div_succ [of 100 "y - 1901"] by (simp add: m100)
  have c: "(y - 1600) div 400 = (y - 1601) div 400 + (if y mod 400 = 0 then 1 else 0)"
    using div_succ [of 400 "y - 1601"] by (simp add: m400)
  have d1: "y mod 100 = 0" if "y mod 400 = 0"
    using that mod_mod_cancel [of 100 400 y] by simp
  have d2: "y mod 4 = 0" if "y mod 100 = 0"
    using that mod_mod_cancel [of 4 100 y] by simp
  have e: "DayFromYear (y + 1) = 365 * (y - 1969) + (y - 1968) div 4 - (y - 1900) div 100 + (y - 1600) div 400"
    by (simp add: DayFromYear_def)
  have f: "DayFromYear (y + 1) = DayFromYear y + 365 + (if y mod 4 = 0 then 1 else 0)
             - (if y mod 100 = 0 then 1 else 0) + (if y mod 400 = 0 then 1 else 0)"
    unfolding e a b c by (simp add: DayFromYear_def)
  show ?thesis
  proof (cases "y mod 400 = 0")
    case True
    moreover from True have "y mod 100 = 0" by (rule d1)
    moreover from this have "y mod 4 = 0" by (rule d2)
    ultimately show ?thesis unfolding f DaysInYear_def InLeapYear_def by simp
  next
    case n400: False
    show ?thesis
    proof (cases "y mod 100 = 0")
      case True
      moreover from True have "y mod 4 = 0" by (rule d2)
      ultimately show ?thesis using n400 unfolding f DaysInYear_def InLeapYear_def by simp
    next
      case False
      with n400 show ?thesis unfolding f DaysInYear_def InLeapYear_def by simp
    qed
  qed
qed


lemma month_cases:
  assumes "1 \<le> m" and "m \<le> (12 :: int)"
  obtains (m1) "m = 1" | (m2) "m = 2" | (m3) "m = 3" | (m4) "m = 4" | (m5) "m = 5" | (m6) "m = 6" | (m7) "m = 7" | (m8) "m = 8" | (m9) "m = 9" | (m10) "m = 10" | (m11) "m = 11" | (m12) "m = 12"
proof -
  have "m = 1 \<or> m = 2 \<or> m = 3 \<or> m = 4 \<or> m = 5 \<or> m = 6 \<or> m = 7 \<or> m = 8 \<or> m = 9 \<or> m = 10 \<or> m = 11 \<or> m = 12"
    using assms by presburger
  then show thesis
    using that by blast
qed

lemma MakeDay_valid:
  assumes "valid_date y m d"
  shows "MakeDay y (m - 1) d = DayFromYear y + month_start (m - 1) (InLeapYear y) + d - 1"
proof -
  from assms have "1 \<le> m" "m \<le> 12" by (simp_all add: valid_date_def)
  then have "(m - 1) div 12 = 0" "(m - 1) mod 12 = m - 1" by simp_all
  then show ?thesis by (simp add: MakeDay_def)
qed

lemma day_within_year:
  assumes "valid_date y m d"
  shows "0 \<le> month_start (m - 1) (InLeapYear y) + d - 1"
    and "month_start (m - 1) (InLeapYear y) + d - 1 < DaysInYear y"
proof -
  from assms have m: "1 \<le> m" "m \<le> 12" and d: "1 \<le> d" "d \<le> days_in_month y m"
    by (simp_all add: valid_date_def)
  from m show "0 \<le> month_start (m - 1) (InLeapYear y) + d - 1"
    using d by (cases rule: month_cases) (simp_all add: month_start_def)
  from m show "month_start (m - 1) (InLeapYear y) + d - 1 < DaysInYear y"
    using d by (cases rule: month_cases)
      (auto simp: month_start_def days_in_month_def DaysInYear_def split: if_splits)
qed

lemma YearFromDay_valid:
  assumes "valid_date y m d"
  shows "YearFromDay (MakeDay y (m - 1) d) = y"
proof (rule YearFromDay_unique)
  show "DayFromYear y \<le> MakeDay y (m - 1) d"
    using day_within_year(1) [OF assms] by (simp add: MakeDay_valid [OF assms])
  show "MakeDay y (m - 1) d < DayFromYear (y + 1)"
    using day_within_year(2) [OF assms] by (simp add: MakeDay_valid [OF assms] DayFromYear_Suc)
qed

lemma DayWithinYear_valid:
  assumes "valid_date y m d"
  shows "DayWithinYear (MakeDay y (m - 1) d) = month_start (m - 1) (InLeapYear y) + d - 1"
  unfolding DayWithinYear_def YearFromDay_valid [OF assms]
  by (simp add: MakeDay_valid [OF assms])

lemma MonthFromDay_valid:
  assumes "valid_date y m d"
  shows "MonthFromDay (MakeDay y (m - 1) d) = m - 1"
proof -
  from assms have m: "1 \<le> m" "m \<le> 12" and d: "1 \<le> d" "d \<le> days_in_month y m"
    by (simp_all add: valid_date_def)
  have e: "MonthFromDay (MakeDay y (m - 1) d) =
     (let dd = month_start (m - 1) (InLeapYear y) + d - 1;
          l = (if InLeapYear y then 1 else 0)
      in if dd < 31 then 0
         else if dd < 59 + l then 1
         else if dd < 90 + l then 2
         else if dd < 120 + l then 3
         else if dd < 151 + l then 4
         else if dd < 181 + l then 5
         else if dd < 212 + l then 6
         else if dd < 243 + l then 7
         else if dd < 273 + l then 8
         else if dd < 304 + l then 9
         else if dd < 334 + l then 10
         else 11)"
    by (simp only: MonthFromDay_def DayWithinYear_valid [OF assms] YearFromDay_valid [OF assms])
  from m show ?thesis
    unfolding e using d
    by (cases rule: month_cases)
      (auto simp: month_start_def days_in_month_def Let_def split: if_splits)
qed

lemma DateFromDay_valid:
  assumes "valid_date y m d"
  shows "DateFromDay (MakeDay y (m - 1) d) = d"
  by (simp add: DateFromDay_def DayWithinYear_valid [OF assms] YearFromDay_valid [OF assms]
      MonthFromDay_valid [OF assms])

lemma next_day_valid:
  assumes "valid_date y m d"
  shows "case next_day y m d of (y', m', d') \<Rightarrow>
           valid_date y' m' d' \<and> MakeDay y' (m' - 1) d' = MakeDay y (m - 1) d + 1"
proof -
  from assms have m: "1 \<le> m" "m \<le> 12" and d: "1 \<le> d" "d \<le> days_in_month y m"
    by (simp_all add: valid_date_def)
  show ?thesis
  proof (cases "d < days_in_month y m")
    case True
    then have v: "valid_date y m (d + 1)"
      using m d by (simp add: valid_date_def)
    have "MakeDay y (m - 1) (d + 1) = MakeDay y (m - 1) d + 1"
      unfolding MakeDay_valid [OF v] MakeDay_valid [OF assms] by simp
    then show ?thesis
      using True by (simp add: next_day_def v)
  next
    case last: False
    with d have dl: "d = days_in_month y m" by simp
    show ?thesis
    proof (cases "m < 12")
      case True
      then have v: "valid_date y (m + 1) 1"
        using m by (simp add: valid_date_def days_in_month_def)
      have ms: "month_start m (InLeapYear y) = month_start (m - 1) (InLeapYear y) + days_in_month y m"
        using m True by (cases rule: month_cases) (simp_all add: month_start_def days_in_month_def)
      have a1: "MakeDay y m 1 = DayFromYear y + month_start m (InLeapYear y)"
        using MakeDay_valid [OF v] by simp
      have a0: "MakeDay y (m - 1) d = DayFromYear y + month_start (m - 1) (InLeapYear y) + d - 1"
        by (rule MakeDay_valid [OF assms])
      have key: "MakeDay y m 1 = MakeDay y (m - 1) d + 1"
        using a0 a1 ms dl by linarith
      show ?thesis
        using True last by (simp add: next_day_def v key)
    next
      case False
      with m have m12: "m = 12" by simp
      have v: "valid_date (y + 1) 1 1"
        by (simp add: valid_date_def days_in_month_def)
      have "MakeDay (y + 1) 0 1 = DayFromYear y + DaysInYear y"
        using MakeDay_valid [OF v] by (simp add: month_start_def DayFromYear_Suc)
      moreover have "MakeDay y (m - 1) d + 1 = DayFromYear y + DaysInYear y"
        unfolding MakeDay_valid [OF assms]
        by (simp add: m12 dl month_start_def days_in_month_def DaysInYear_def)
      ultimately have key: "MakeDay (y + 1) 0 1 = MakeDay y (m - 1) d + 1"
        by simp
      show ?thesis
        using last False by (simp add: next_day_def v key)
    qed
  qed
qed

lemma addDays_utc_next_day:
  assumes "valid_date y m d" and "y < 0 \<or> 100 \<le> y"
  shows "addDays_utc y m d 1 = next_day y m d"
proof -
  obtain y' m' d' where n: "next_day y m d = (y', m', d')"
    by (cases "next_day y m d")
  with next_day_valid [OF assms(1)] have v: "valid_date y' m' d'"
    and e: "MakeDay y' (m' - 1) d' = MakeDay y (m - 1) d + 1"
    by simp_all
  have utc: "Date_UTC y (m - 1) d = MakeDay y (m - 1) d"
    using assms(2) by (auto simp: Date_UTC_def)
  have "setUTCDate (MakeDay y (m - 1) d) (DateFromDay (MakeDay y (m - 1) d) + 1)
          = MakeDay y (m - 1) (d + 1)"
    by (simp add: setUTCDate_def YearFromDay_valid [OF assms(1)] MonthFromDay_valid [OF assms(1)]
        DateFromDay_valid [OF assms(1)])
  also have "\<dots> = MakeDay y (m - 1) d + 1"
    by (simp add: MakeDay_def Let_def)
  also have "\<dots> = MakeDay y' (m' - 1) d'"
    by (simp add: e)
  finally have s: "setUTCDate (MakeDay y (m - 1) d) (DateFromDay (MakeDay y (m - 1) d) + 1)
          = MakeDay y' (m' - 1) d'" .
  show ?thesis
    unfolding addDays_utc_def utc Let_def s n
    by (simp add: YearFromDay_valid [OF v] MonthFromDay_valid [OF v] DateFromDay_valid [OF v])
qed


lemma is_digit_not_hyphen: "is_digit c \<Longrightarrow> c \<noteq> CHR ''-''"
  by (auto simp: is_digit_def)

lemma iso_pattern_split:
  assumes "iso_pattern s"
  shows "split_char (CHR ''-'') [] s = [take 4 s, take 2 (drop 5 s), drop 8 s]"
proof -
  from assms obtain y1 y2 y3 y4 m1 m2 d1 d2 where s: "s = [y1, y2, y3, y4, CHR ''-'', m1, m2, CHR ''-'', d1, d2]"
    and dg: "is_digit y1" "is_digit y2" "is_digit y3" "is_digit y4" "is_digit m1" "is_digit m2"
      "is_digit d1" "is_digit d2"
    by (auto elim: iso_pattern.elims)
  show ?thesis
    unfolding s using dg [THEN is_digit_not_hyphen] by simp
qed

lemma iso_pattern_nonempty: "iso_pattern s \<Longrightarrow> s \<noteq> []"
  by auto

lemma addDaysIso_next_day:
  assumes "isISODate toIso" and "iso_fields (js_String toIso) = (y, m, d)"
    and "valid_date y m d" and "100 \<le> y"
  shows "addDaysIso toIso 1 = Some (iso_date (next_day y m d))"
proof -
  from assms(1) obtain s where t: "toIso = JStr s" and p: "iso_pattern s"
    by (cases toIso) (simp_all add: isISODate_def)
  have ne: "s \<noteq> []"
    using p by (rule iso_pattern_nonempty)
  have str: "js_String (js_or toIso (JStr [])) = s"
    using ne by (simp add: t js_or_def)
  have f: "int (digits_val (take 4 s)) = y" "int (digits_val (take 2 (drop 5 s))) = m"
    "int (digits_val (drop 8 s)) = d"
    using assms(2) by (simp_all add: t iso_fields_def)
  have nz: "\<not> (y = 0 \<or> m = 0 \<or> d = 0)"
    using assms(3,4) by (simp add: valid_date_def)
  have nd: "addDays_utc y m d 1 = next_day y m d"
    using assms(3,4) by (intro addDays_utc_next_day) simp_all
  show ?thesis
    unfolding addDaysIso_def str iso_pattern_split [OF p]
    using nz by (simp add: f nd iso_date_def split: prod.splits)
qed

lemma rangeToSql_Some:
  "isISODate fromIso \<Longrightarrow> isISODate toIso \<Longrightarrow>
     rangeToSql fromIso toIso =
       Some \<lparr>r_from = js_String fromIso @ '' 00:00:00'',
             r_toExcl = template_of (addDaysIso toIso 1) @ '' 00:00:00''\<rparr>"
  by (simp add: rangeToSql_def)

lemma rangeToSql_None: "(rangeToSql fromIso toIso = None) = (\<not> (isISODate fromIso \<and> isISODate toIso))"
  by (simp add: rangeToSql_def)

section \<open>Resolution of the range\<close>

text \<open>Claim C4 as stated fails: \<^verbatim>\<open>"2024-13-01"\<close> matches the pattern, so the range is resolved
  (with the end read as 1 January 2025 plus one day) and the summary is not answered with
  400.\<close>

theorem range_resolution_counterexample:
  "isISODate (JStr ''2024-13-01'')
   \<and> rangeToSql (JStr ''2024-13-01'') (JStr ''2024-13-01'')
       = Some \<lparr>r_from = ''2024-13-01 00:00:00'', r_toExcl = ''2025-01-02 00:00:00''\<rparr>
   \<and> dashboard_summary Fin (\<lambda>s. 0) [] (JObj [(''from'', JStr ''2024-13-01''), (''to'', JStr ''2024-13-01'')])
       \<noteq> SendError 400 ''Invalid from/to (expected YYYY-MM-DD)''"
proof -
  have a: "isISODate (JStr ''2024-13-01'')"
    by code_simp
  have b: "rangeToSql (JStr ''2024-13-01'') (JStr ''2024-13-01'')
       = Some \<lparr>r_from = ''2024-13-01 00:00:00'', r_toExcl = ''2025-01-02 00:00:00''\<rparr>"
    by code_simp
  have c: "dashboard_summary Fin (\<lambda>s. 0) [] (JObj [(''from'', JStr ''2024-13-01''), (''to'', JStr ''2024-13-01'')])
       \<noteq> SendError 400 ''Invalid from/to (expected YYYY-MM-DD)''"
    by code_simp
  from a b c show ?thesis by (intro conjI)
qed

text \<open>
  Claim C4, amended. \<^verbatim>\<open>rangeToSql\<close> resolves a range exactly when both inputs are strings of
  the shape four digits, hyphen, two digits, hyphen, two digits, and the summary is answered
  with 400 exactly when it does not. The resolved range starts at the first input followed
  by \<^verbatim>\<open>00:00:00\<close> and ends before the date that \<^verbatim>\<open>addDaysIso(to, 1)\<close> returns followed by
  \<^verbatim>\<open>00:00:00\<close>, which is the day after the second input whenever that is a date of the
  calendar in a year from 100 on.
  The inputs \<^verbatim>\<open>"2024-01-01"\<close> and \<^verbatim>\<open>"2024-01-03"\<close> give the range from \<^verbatim>\<open>2024-01-01 00:00:00\<close> to
  before \<^verbatim>\<open>2024-01-04 00:00:00\<close>; \<^verbatim>\<open>"01/01/2024"\<close> is refused; \<^verbatim>\<open>"2024-13-01"\<close> is not refused.
\<close>

theorem range_resolution:
  "(rangeToSql fromIso toIso \<noteq> None) = (isISODate fromIso \<and> isISODate toIso)
   \<and> (\<forall>r. rangeToSql fromIso toIso = Some r \<longrightarrow>
          r_from r = js_String fromIso @ '' 00:00:00''
          \<and> (\<forall>e. addDaysIso toIso 1 = Some e \<longrightarrow> r_toExcl r = e @ '' 00:00:00''))
   \<and> (isISODate toIso \<and> iso_fields (js_String toIso) = (y, m, d) \<and> valid_date y m d \<and> 100 \<le> y
        \<longrightarrow> addDaysIso toIso 1 = Some (iso_date (next_day y m d)))
   \<and> ((dashboard_summary round_double datetime_of sales (JObj q) = SendError 400 ''Invalid from/to (expected YYYY-MM-DD)'')
        = (\<not> (isISODate (js_get (JObj q) ''from'') \<and> isISODate (js_get (JObj q) ''to''))))
   \<and> rangeToSql (JStr ''2024-01-01'') (JStr ''2024-01-03'')
        = Some \<lparr>r_from = ''2024-01-01 00:00:00'', r_toExcl = ''2024-01-04 00:00:00''\<rparr>
   \<and> rangeToSql (JStr ''01/01/2024'') toIso = None
   \<and> rangeToSql fromIso (JStr ''01/01/2024'') = None"
proof -
  have a: "(rangeToSql fromIso toIso \<noteq> None) = (isISODate fromIso \<and> isISODate toIso)"
    by (simp add: rangeToSql_None)
  have b: "\<forall>r. rangeToSql fromIso toIso = Some r \<longrightarrow>
          r_from r = js_String fromIso @ '' 00:00:00''
          \<and> (\<forall>e. addDaysIso toIso 1 = Some e \<longrightarrow> r_toExcl r = e @ '' 00:00:00'')"
    by (auto simp: rangeToSql_def template_of_def split: if_splits)
  have c: "isISODate toIso \<and> iso_fields (js_String toIso) = (y, m, d) \<and> valid_date y m d \<and> 100 \<le> y
        \<longrightarrow> addDaysIso toIso 1 = Some (iso_date (next_day y m d))"
    using addDaysIso_next_day by blast
  have d: "(dashboard_summary round_double datetime_of sales (JObj q) = SendError 400 ''Invalid from/to (expected YYYY-MM-DD)'')
        = (\<not> (isISODate (js_get (JObj q) ''from'') \<and> isISODate (js_get (JObj q) ''to'')))"
  proof (cases "rangeToSql (js_get (JObj q) ''from'') (js_get (JObj q) ''to'')")
    case None
    moreover from None have "\<not> (isISODate (js_get (JObj q) ''from'') \<and> isISODate (js_get (JObj q) ''to''))"
      unfolding rangeToSql_None .
    ultimately show ?thesis
      by (simp add: dashboard_summary_def js_and_def Let_def)
  next
    case (Some r)
    then have "rangeToSql (js_get (JObj q) ''from'') (js_get (JObj q) ''to'') \<noteq> None"
      by simp
    then have "isISODate (js_get (JObj q) ''from'') \<and> isISODate (js_get (JObj q) ''to'')"
      unfolding rangeToSql_None not_not .
    with Some show ?thesis
      by (simp add: dashboard_summary_def js_and_def Let_def)
  qed
  have e: "rangeToSql (JStr ''2024-01-01'') (JStr ''2024-01-03'')
        = Some \<lparr>r_from = ''2024-01-01 00:00:00'', r_toExcl = ''2024-01-04 00:00:00''\<rparr>"
    by code_simp
  have f: "\<not> isISODate (JStr ''01/01/2024'')"
    by code_simp
  then have g: "rangeToSql (JStr ''01/01/2024'') toIso = None" "rangeToSql fromIso (JStr ''01/01/2024'') = None"
    by (simp_all add: rangeToSql_def)
  from a b c d e g show ?thesis by (intro conjI)
qed

theorem range_resolution_witness:
  "rangeToSql (JStr ''2023-12-01'') (JStr ''2023-12-31'')
     = Some \<lparr>r_from = ''2023-12-01 00:00:00'', r_toExcl = ''2024-01-01 00:00:00''\<rparr>
   \<and> dashboard_summary Fin (\<lambda>s. 0) [] (JObj [(''from'', JStr ''2023-12-01''), (''to'', JStr ''31/12/2023'')])
     = SendError 400 ''Invalid from/to (expected YYYY-MM-DD)''"
proof -
  have i1: "isISODate (JStr ''2023-12-01'')" and i2: "isISODate (JStr ''2023-12-31'')"
    by code_simp+
  have fl: "iso_fields (js_String (JStr ''2023-12-31'')) = (2023, 12, 31)"
    by code_simp
  have v: "valid_date 2023 12 31"
    by code_simp
  have n: "iso_date (next_day 2023 12 31) = ''2024-01-01''"
    by code_simp
  have bad: "\<not> (isISODate (js_get (JObj [(''from'', JStr ''2023-12-01''), (''to'', JStr ''31/12/2023'')]) ''from'')
      \<and> isISODate (js_get (JObj [(''from'', JStr ''2023-12-01''), (''to'', JStr ''31/12/2023'')]) ''to''))"
    by code_simp
  note w = range_resolution [where fromIso = "JStr ''2023-12-01''" and toIso = "JStr ''2023-12-31''"
      and y = 2023 and m = 12 and d = 31 and round_double = Fin and datetime_of = "\<lambda>s. 0"
      and sales = "[]"
      and q = "[(''from'', JStr ''2023-12-01''), (''to'', JStr ''31/12/2023'')]"]
  from w i1 i2 obtain r where r: "rangeToSql (JStr ''2023-12-01'') (JStr ''2023-12-31'') = Some r"
    by blast
  from w fl v i2 have add: "addDaysIso (JStr ''2023-12-31'') 1 = Some (iso_date (next_day 2023 12 31))"
    by simp
  from w r have "r_from r = ''2023-12-01 00:00:00''" "r_toExcl r = ''2024-01-01 00:00:00''"
    by (simp_all add: add n)
  then have "r = \<lparr>r_from = ''2023-12-01 00:00:00'', r_toExcl = ''2024-01-01 00:00:00''\<rparr>"
    by simp
  moreover from w bad have "dashboard_summary Fin (\<lambda>s. 0) []
      (JObj [(''from'', JStr ''2023-12-01''), (''to'', JStr ''31/12/2023'')])
     = SendError 400 ''Invalid from/to (expected YYYY-MM-DD)''"
    by blast
  ultimately show ?thesis
    using r by simp
qed

end
